theory Spec2Isabelle
  imports Complex_Main "HOL-Library.Multiset"
begin

section \<open>Cards\<close>

text \<open>
  The server of \<^verbatim>\<open>src/functions/socket.js\<close> keeps cards as objects
  \<^verbatim>\<open>{ id, suit, rank, selected, markedForDiscard }\<close>. The suit is one of four
  strings, the rank a number in 1..13. The id is the string
  \<^verbatim>\<open>`${suit}-${rank}-${Math.random()}`\<close>; it is kept here as its three parts
  (the formatted string determines them, since neither a suit name nor a rank has a dash).
\<close>

datatype suit = Hearts | Diamonds | Clubs | Spades

datatype card_id = CardId suit int nat

record card =
  cid :: card_id
  suit :: suit
  rank :: int
  selected :: bool
  markedForDiscard :: bool

section \<open>Hand validation (validateHand)\<close>

text \<open>
  \<^verbatim>\<open>validateHand\<close> returns \<^verbatim>\<open>{ valid: true }\<close> or
  \<^verbatim>\<open>{ valid: false, error: <message> }\<close>. The messages are the constructors of
  \<open>hand_error\<close>, in the order in which the source has them; the last one carries the
  number of cards that the message interpolates.
\<close>

datatype hand_error =
    NoCardsSelected
  | TwoCardsMustBePair
  | ThreeCardsMustBeThreeOfAKind
  | FourCardsMustBeFourOfAKindOrTwoPair
  | FiveCardsMustForm
  | InvalidNumberOfCards nat

datatype validation = Valid | Invalid hand_error

text \<open>\<^verbatim>\<open>[...cards].sort((a, b) => a.rank - b.rank)\<close>: a stable sort on the rank.\<close>

definition sortedCards_of :: "card list \<Rightarrow> card list" where
  "sortedCards_of cards = sort_key rank cards"

definition ranks_of :: "card list \<Rightarrow> int list" where
  "ranks_of cards = map rank (sortedCards_of cards)"

definition suits_of :: "card list \<Rightarrow> suit list" where
  "suits_of cards = map suit (sortedCards_of cards)"

text \<open>
  \<^verbatim>\<open>rankCounts[rank] = (rankCounts[rank] || 0) + 1\<close> on an object that starts
  empty: the object is an association list in insertion order.
\<close>

fun bump :: "int \<Rightarrow> (int \<times> nat) list \<Rightarrow> (int \<times> nat) list" where
  "bump r [] = [(r, 1)]"
| "bump r ((k, c) # kvs) = (if k = r then (k, c + 1) # kvs else (k, c) # bump r kvs)"

definition rankCounts_of :: "int list \<Rightarrow> (int \<times> nat) list" where
  "rankCounts_of rs = foldl (\<lambda>m r. bump r m) [] rs"

text \<open>
  \<^verbatim>\<open>Object.values(rankCounts).sort((a, b) => b - a)\<close>: the counts in
  descending order (the order in which \<^verbatim>\<open>Object.values\<close> lists them is lost by
  the sort).
\<close>

definition counts_of :: "card list \<Rightarrow> nat list" where
  "counts_of cards = rev (sort (map snd (rankCounts_of (ranks_of cards))))"

text \<open>\<^verbatim>\<open>counts[i]\<close>, which is \<^verbatim>\<open>undefined\<close> past the end.\<close>

definition elem_at :: "'a list \<Rightarrow> nat \<Rightarrow> 'a option" where
  "elem_at xs i = (if i < length xs then Some (xs ! i) else None)"

text \<open>\<^verbatim>\<open>suits.every((suit) => suit === suits[0]) && cards.length === 5\<close>\<close>

definition isFlush_of :: "card list \<Rightarrow> bool" where
  "isFlush_of cards =
     ((case suits_of cards of [] \<Rightarrow> True | s0 # _ \<Rightarrow> list_all (\<lambda>s. s = s0) (suits_of cards))
      \<and> length cards = 5)"

text \<open>
  The three flags that are set inside
  \<^verbatim>\<open>if (cards.length === 5 && new Set(ranks).size === 5)\<close> and are false
  otherwise. \<^verbatim>\<open>ranks.join(",") === "1,2,3,4,5"\<close> holds exactly when the list of
  numbers is \<open>[1, 2, 3, 4, 5]\<close>.
\<close>

definition five_distinct :: "card list \<Rightarrow> bool" where
  "five_distinct cards = (length cards = 5 \<and> length (remdups (ranks_of cards)) = 5)"

definition isLowStraight_of :: "card list \<Rightarrow> bool" where
  "isLowStraight_of cards = (five_distinct cards \<and> ranks_of cards = [1, 2, 3, 4, 5])"

definition isStraight_of :: "card list \<Rightarrow> bool" where
  "isStraight_of cards =
     (five_distinct cards \<and> \<not> isLowStraight_of cards
      \<and> ranks_of cards ! 4 - ranks_of cards ! 0 = 4)"

definition isRoyal_of :: "card list \<Rightarrow> bool" where
  "isRoyal_of cards =
     (five_distinct cards \<and> isFlush_of cards \<and> ranks_of cards = [1, 10, 11, 12, 13])"

definition validateHand :: "card list \<Rightarrow> validation" where
  "validateHand cards =
     (if length cards = 0 then Invalid NoCardsSelected
      else if length cards = 1 then Valid
      else if length cards = 2 then
        (if elem_at (counts_of cards) 0 \<noteq> Some 2 then Invalid TwoCardsMustBePair else Valid)
      else if length cards = 3 then
        (if elem_at (counts_of cards) 0 \<noteq> Some 3 then Invalid ThreeCardsMustBeThreeOfAKind
         else Valid)
      else if length cards = 4 then
        (if elem_at (counts_of cards) 0 = Some 4 then Valid
         else if elem_at (counts_of cards) 0 = Some 2 \<and> elem_at (counts_of cards) 1 = Some 2 then Valid
         else Invalid FourCardsMustBeFourOfAKindOrTwoPair)
      else if length cards = 5 then
        (if isRoyal_of cards then Valid
         else if isFlush_of cards \<and> (isStraight_of cards \<or> isLowStraight_of cards) then Valid
         else if elem_at (counts_of cards) 0 = Some 3 \<and> elem_at (counts_of cards) 1 = Some 2 then Valid
         else if isFlush_of cards then Valid
         else if isStraight_of cards \<or> isLowStraight_of cards then Valid
         else Invalid FiveCardsMustForm)
      else Invalid (InvalidNumberOfCards (length cards)))"

section \<open>Hand classification (evaluateHand)\<close>

text \<open>
  The result \<^verbatim>\<open>{ type, damage, description }\<close>. The description of a classified
  hand is the text of the ranking followed by \<^verbatim>\<open>(Base: b + Face: f)\<close>; it is kept
  as the text and the two numbers.
\<close>

datatype description =
    Plain string
  | Because hand_error
  | WithDamage string int int

record hand_result =
  htype :: string
  damage :: int
  description :: description

text \<open>The table \<^verbatim>\<open>HAND_RANKINGS\<close>: damage and description of a ranking.\<close>

definition HAND_RANKINGS :: "(string \<times> int \<times> string) list" where
  "HAND_RANKINGS =
     [(''Royal Flush'', 50, ''A, K, Q, J, 10 of same suit''),
      (''Straight Flush'', 40, ''5 consecutive cards of same suit''),
      (''Four of a Kind'', 35, ''4 cards of same rank''),
      (''Full House'', 30, ''3 of a kind + pair''),
      (''Flush'', 25, ''5 cards of same suit''),
      (''Straight'', 20, ''5 consecutive cards''),
      (''Three of a Kind'', 15, ''3 cards of same rank''),
      (''Two Pair'', 10, ''2 pairs of different ranks''),
      (''One Pair'', 5, ''2 cards of same rank''),
      (''High Card'', 1, ''Highest card'')]"

definition ranking_damage :: "string \<Rightarrow> int" where
  "ranking_damage t = (case map_of HAND_RANKINGS t of Some (d, _) \<Rightarrow> d | None \<Rightarrow> 0)"

definition ranking_description :: "string \<Rightarrow> string" where
  "ranking_description t = (case map_of HAND_RANKINGS t of Some (_, s) \<Rightarrow> s | None \<Rightarrow> [])"

text \<open>The reducer of \<^verbatim>\<open>faceValueDamage\<close>.\<close>

definition faceStep :: "int \<Rightarrow> card \<Rightarrow> int" where
  "faceStep acc c =
     (if rank c = 1 then acc + 14
      else if rank c = 13 then acc + 13
      else if rank c = 12 then acc + 12
      else if rank c = 11 then acc + 11
      else acc + rank c)"

definition faceValueDamage :: "card list \<Rightarrow> int" where
  "faceValueDamage cards = foldl faceStep 0 cards"

definition handType_of :: "card list \<Rightarrow> string" where
  "handType_of cards =
     (if isRoyal_of cards then ''Royal Flush''
      else if isFlush_of cards \<and> (isStraight_of cards \<or> isLowStraight_of cards)
        then ''Straight Flush''
      else if elem_at (counts_of cards) 0 = Some 4 then ''Four of a Kind''
      else if elem_at (counts_of cards) 0 = Some 3 \<and> elem_at (counts_of cards) 1 = Some 2
        then ''Full House''
      else if isFlush_of cards then ''Flush''
      else if isStraight_of cards \<or> isLowStraight_of cards then ''Straight''
      else if elem_at (counts_of cards) 0 = Some 3 then ''Three of a Kind''
      else if elem_at (counts_of cards) 0 = Some 2 \<and> elem_at (counts_of cards) 1 = Some 2
        then ''Two Pair''
      else if elem_at (counts_of cards) 0 = Some 2 then ''One Pair''
      else ''High Card'')"

definition evaluateHand :: "card list \<Rightarrow> hand_result" where
  "evaluateHand cards =
     (if length cards = 0 then
        \<lparr>htype = ''No Cards'', damage = 0, description = Plain ''No cards selected''\<rparr>
      else case validateHand cards of
        Invalid e \<Rightarrow> \<lparr>htype = ''Invalid Hand'', damage = 0, description = Because e\<rparr>
      | Valid \<Rightarrow>
          (let handType = handType_of cards;
               baseDamage = ranking_damage handType;
               totalDamage = baseDamage + faceValueDamage cards
           in \<lparr>htype = handType, damage = totalDamage,
               description =
                 WithDamage (ranking_description handType) baseDamage (faceValueDamage cards)\<rparr>))"

section \<open>The rules as the specification words them\<close>

text \<open>
  The predicates below follow the wording of the rules (pair, three of a kind, two pair,
  full house, flush, straight, royal flush) on the cards as they are given, without sorting
  and without the count table of the code. They are what the code is compared with.
\<close>

definition spec_same_rank :: "card list \<Rightarrow> bool" where
  "spec_same_rank cards = (\<forall>c\<in>set cards. \<forall>c'\<in>set cards. rank c = rank c')"

definition spec_two_pair :: "card list \<Rightarrow> bool" where
  "spec_two_pair cards =
     (\<exists>x\<in>set (map rank cards). \<exists>y\<in>set (map rank cards).
        x \<noteq> y \<and> count_list (map rank cards) x = 2 \<and> count_list (map rank cards) y = 2)"

definition spec_full_house :: "card list \<Rightarrow> bool" where
  "spec_full_house cards =
     (\<exists>x\<in>set (map rank cards). \<exists>y\<in>set (map rank cards).
        count_list (map rank cards) x = 3 \<and> count_list (map rank cards) y = 2)"

definition spec_flush :: "card list \<Rightarrow> bool" where
  "spec_flush cards = (\<forall>c\<in>set cards. \<forall>c'\<in>set cards. suit c = suit c')"

definition spec_straight :: "card list \<Rightarrow> bool" where
  "spec_straight cards =
     (distinct (map rank cards) \<and>
      (set (map rank cards) = {1, 2, 3, 4, 5}
       \<or> Max (set (map rank cards)) - Min (set (map rank cards)) = 4))"

definition spec_royal_flush :: "card list \<Rightarrow> bool" where
  "spec_royal_flush cards = (spec_flush cards \<and> set (map rank cards) = {1, 10, 11, 12, 13})"

definition spec_straight_flush :: "card list \<Rightarrow> bool" where
  "spec_straight_flush cards = (spec_flush cards \<and> spec_straight cards)"

definition spec_valid :: "card list \<Rightarrow> bool" where
  "spec_valid cards =
     (if length cards = 0 then False
      else if length cards = 1 then True
      else if length cards = 2 then spec_same_rank cards
      else if length cards = 3 then spec_same_rank cards
      else if length cards = 4 then spec_same_rank cards \<or> spec_two_pair cards
      else if length cards = 5 then
        spec_royal_flush cards \<or> spec_straight_flush cards \<or> spec_full_house cards
        \<or> spec_flush cards \<or> spec_straight cards
      else False)"




section \<open>Example hands\<close>


definition broadway_mixed :: "card list" where
  "broadway_mixed =
     [\<lparr>cid = CardId Hearts 1 0, suit = Hearts, rank = 1, selected = True, markedForDiscard = False\<rparr>,
      \<lparr>cid = CardId Hearts 10 0, suit = Hearts, rank = 10, selected = True, markedForDiscard = False\<rparr>,
      \<lparr>cid = CardId Hearts 11 0, suit = Hearts, rank = 11, selected = True, markedForDiscard = False\<rparr>,
      \<lparr>cid = CardId Hearts 12 0, suit = Hearts, rank = 12, selected = True, markedForDiscard = False\<rparr>,
      \<lparr>cid = CardId Spades 13 0, suit = Spades, rank = 13, selected = True, markedForDiscard = False\<rparr>]"

definition sevens :: "card list" where
  "sevens =
     [\<lparr>cid = CardId Clubs 7 0, suit = Clubs, rank = 7, selected = True, markedForDiscard = False\<rparr>,
      \<lparr>cid = CardId Diamonds 7 0, suit = Diamonds, rank = 7, selected = True, markedForDiscard = False\<rparr>]"

definition sevens_and_two :: "card list" where
  "sevens_and_two =
     sevens @
     [\<lparr>cid = CardId Spades 2 0, suit = Spades, rank = 2, selected = True, markedForDiscard = False\<rparr>]"

section \<open>Random numbers, shuffling and the deck (createDeck)\<close>

text \<open>
  \<^verbatim>\<open>Math.random()\<close> is the only source of randomness. It is modelled by an explicit
  random source, a list of naturals that is read from the left (and yields 0 once it is
  used up). \<^verbatim>\<open>Math.floor(Math.random() * n)\<close> takes the next natural reduced modulo
  \<open>n\<close>: it yields every index below \<open>n\<close>, and nothing else, as the source does.
\<close>

type_synonym random_source = "nat list"

definition random_raw :: "random_source \<Rightarrow> nat \<times> random_source" where
  "random_raw rs = (case rs of [] \<Rightarrow> (0, []) | x # xs \<Rightarrow> (x, xs))"

definition random_below :: "nat \<Rightarrow> random_source \<Rightarrow> nat \<times> random_source" where
  "random_below n rs = (case random_raw rs of (x, xs) \<Rightarrow> (x mod n, xs))"

text \<open>
  The loop
  \<^verbatim>\<open>for (let i = a.length - 1; i > 0; i--) { j = floor(random() * (i + 1)); [a[i], a[j]] = [a[j], a[i]] }\<close>
  which the source has three times (in \<^verbatim>\<open>createDeck\<close>, \<^verbatim>\<open>playHand\<close> and
  \<^verbatim>\<open>buildArmor\<close>). \<open>shuffle_from i\<close> runs the iterations \<open>i, i - 1, \<dots>, 1\<close>.
\<close>

fun shuffle_from :: "nat \<Rightarrow> 'a list \<Rightarrow> random_source \<Rightarrow> 'a list \<times> random_source" where
  "shuffle_from 0 xs rs = (xs, rs)"
| "shuffle_from (Suc i) xs rs =
     (case random_below (Suc i + 1) rs of
        (j, rs') \<Rightarrow> shuffle_from i (xs[Suc i := xs ! j, j := xs ! Suc i]) rs')"

definition shuffle :: "'a list \<Rightarrow> random_source \<Rightarrow> 'a list \<times> random_source" where
  "shuffle xs rs = shuffle_from (length xs - 1) xs rs"

definition suit_names :: "suit list" where
  "suit_names = [Hearts, Diamonds, Clubs, Spades]"

text \<open>The 52 \<^verbatim>\<open>deck.push\<close> calls, each with its own \<^verbatim>\<open>Math.random()\<close> in the id.\<close>

fun push_cards :: "(suit \<times> int) list \<Rightarrow> random_source \<Rightarrow> card list \<times> random_source" where
  "push_cards [] rs = ([], rs)"
| "push_cards ((s, r) # ps) rs =
     (case random_raw rs of
        (x, rs') \<Rightarrow>
          (case push_cards ps rs' of
             (cs, rs'') \<Rightarrow>
               (\<lparr>cid = CardId s r x, suit = s, rank = r, selected = False,
                 markedForDiscard = False\<rparr> # cs, rs'')))"

definition createDeck :: "random_source \<Rightarrow> card list \<times> random_source" where
  "createDeck rs =
     (case push_cards (concat (map (\<lambda>s. map (\<lambda>r. (s, r)) [1..13]) suit_names)) rs of
        (pushed, rs') \<Rightarrow> shuffle pushed rs')"

section \<open>Players, rooms and the server state\<close>

text \<open>
  A player object \<^verbatim>\<open>{ id, name, roomId }\<close> receives its game fields in
  \<^verbatim>\<open>startGame\<close>. The record \<open>player\<close> has the id, the name and all game fields:
  the handlers of a game are modelled for players that have been through
  \<^verbatim>\<open>startGame\<close> (a player object that has only joined has no hand to look at). The
  back reference \<^verbatim>\<open>roomId\<close> is kept with the session.

  A room is the object built in \<^verbatim>\<open>createRoom\<close> together with the
  \<^verbatim>\<open>discardPile\<close> that Recycling rooms get (the empty list stands for a pile that
  does not exist). The mode is the string that the client sent.
  \<^verbatim>\<open>currentPlayer\<close> and the result of \<^verbatim>\<open>findIndex\<close> are integers, since
  \<^verbatim>\<open>findIndex\<close> answers \<open>-1\<close>. A prediction is \<^verbatim>\<open>null\<close> or the string sent
  by the client.

  The global \<^verbatim>\<open>players\<close> map (here \<open>sessions\<close>) holds the same player objects as
  the \<^verbatim>\<open>players\<close> arrays of the rooms. The handlers below test only whether the
  session has an entry, and work on the objects of the room; the room therefore keeps its
  player records. Likewise \<^verbatim>\<open>selectedCards\<close> holds card objects of the hand; only
  their rank and suit are read through it.
\<close>

type_synonym socket_id = string
type_synonym room_id = string

record player =
  pid :: socket_id
  pname :: string
  health :: int
  maxHealth :: int
  hand :: "card list"
  selectedCards :: "card list"
  discardsUsed :: int
  maxDiscards :: int
  maxCardsPerDiscard :: int
  armor :: int
  prediction :: "string option"
  parryCards :: "card list"

datatype game_state = Waiting | Playing | Ended

record room =
  rid :: room_id
  rname :: string
  gameMode :: string
  players :: "player list"
  gameState :: game_state
  currentPlayer :: int
  turn :: int
  deck :: "card list"
  discardPile :: "card list"
  lastPlayedHand :: "hand_result option"

record session =
  sname :: string
  sroom :: "room_id option"

record server =
  rooms :: "room_id \<rightharpoonup> room"
  sessions :: "socket_id \<rightharpoonup> session"
  random :: random_source

abbreviation CLASSIC :: string where "CLASSIC \<equiv> ''classic''"
abbreviation TACTICAL :: string where "TACTICAL \<equiv> ''tactical''"
abbreviation RECYCLING :: string where "RECYCLING \<equiv> ''recycling''"

text \<open>
  \<^verbatim>\<open>(GAME_MODE_CONFIG[room.gameMode] || GAME_MODE_CONFIG[GAME_MODES.CLASSIC]).startingHealth\<close>:
  a mode that the table does not have takes the Classic entry.
\<close>

definition startingHealth :: "string \<Rightarrow> int" where
  "startingHealth mode = (if mode = RECYCLING then 150 else 100)"

section \<open>Events and outcomes\<close>

text \<open>
  What a handler emits: \<^verbatim>\<open>socket.emit\<close> and \<^verbatim>\<open>io.to(player.id).emit\<close> reach one
  socket, \<^verbatim>\<open>io.to(roomId).emit\<close> the sockets of a room. The entries of the
  \<^verbatim>\<open>players\<close> array of a broadcast are \<open>player_view\<close>s, whose optional fields are
  the ones that the source adds conditionally.
\<close>

datatype recipient = ToSocket socket_id | ToRoom room_id

record player_view =
  v_id :: socket_id
  v_name :: string
  v_health :: int
  v_maxHealth :: int
  v_handSize :: nat
  v_discardsUsed :: int
  v_maxDiscards :: int
  v_maxCardsPerDiscard :: int
  v_armor :: "int option"
  v_prediction :: "string option option"
  v_hand :: "card list option"

datatype message =
    ErrorMessage string
  | InvalidHandMessage hand_error
  | CardSelected int card_id bool
  | CardMarkedForDiscard int card_id bool
  | GameStateUpdate "player_view list"
  | PredictionMade int "string option"
  | HandPlayed int hand_result int int "player_view list"
  | ArmorBuilt int int hand_result int int "player_view list"
  | GameEnded player hand_result
  | GameStarted room
  | RematchAccepted room

type_synonym event = "recipient \<times> message"

text \<open>
  A handler that throws keeps the mutations made before the throw, so an outcome has the
  state in every case. The only exception that the handlers can raise is the
  \<^verbatim>\<open>TypeError\<close> of a property access on \<^verbatim>\<open>undefined\<close>.
\<close>

datatype js_error = TypeError

record outcome =
  final :: server
  emitted :: "event list"
  thrown :: "js_error option"

definition silent :: "server \<Rightarrow> outcome" where
  "silent s = \<lparr>final = s, emitted = [], thrown = None\<rparr>"

definition emits :: "server \<Rightarrow> event list \<Rightarrow> outcome" where
  "emits s es = \<lparr>final = s, emitted = es, thrown = None\<rparr>"

definition throws :: "server \<Rightarrow> outcome" where
  "throws s = \<lparr>final = s, emitted = [], thrown = Some TypeError\<rparr>"

section \<open>Helpers of the handlers\<close>

text \<open>\<^verbatim>\<open>room.players.findIndex((p) => p.id === socket.id)\<close>\<close>

fun findIndex :: "('a \<Rightarrow> bool) \<Rightarrow> 'a list \<Rightarrow> int" where
  "findIndex P [] = - 1"
| "findIndex P (x # xs) =
     (if P x then 0 else if findIndex P xs = - 1 then - 1 else findIndex P xs + 1)"

text \<open>\<^verbatim>\<open>room.players[i]\<close>, which is \<^verbatim>\<open>undefined\<close> outside the array.\<close>

definition player_at :: "player list \<Rightarrow> int \<Rightarrow> player option" where
  "player_at ps i = (if 0 \<le> i \<and> i < int (length ps) then Some (ps ! nat i) else None)"

definition set_player :: "room \<Rightarrow> int \<Rightarrow> player \<Rightarrow> room" where
  "set_player r i p = r\<lparr>players := (players r)[nat i := p]\<rparr>"

definition put_room :: "server \<Rightarrow> room_id \<Rightarrow> room \<Rightarrow> server" where
  "put_room s roomId r = s\<lparr>rooms := (rooms s)(roomId \<mapsto> r)\<rparr>"

text \<open>\<^verbatim>\<open>({ ...card, selected: false, markedForDiscard: false })\<close>\<close>

definition clearFlags :: "card \<Rightarrow> card" where
  "clearFlags c = c\<lparr>selected := False, markedForDiscard := False\<rparr>"

text \<open>The first element that satisfies \<open>P\<close> is replaced: a mutation of what \<^verbatim>\<open>find\<close> returned.\<close>

fun update_first :: "('a \<Rightarrow> bool) \<Rightarrow> ('a \<Rightarrow> 'a) \<Rightarrow> 'a list \<Rightarrow> 'a list" where
  "update_first P f [] = []"
| "update_first P f (x # xs) = (if P x then f x # xs else x # update_first P f xs)"

text \<open>JavaScript truthiness of a prediction: \<^verbatim>\<open>null\<close> and the empty string are falsy.\<close>

definition truthy :: "string option \<Rightarrow> bool" where
  "truthy p = (case p of None \<Rightarrow> False | Some t \<Rightarrow> t \<noteq> [])"

text \<open>The entries of the \<^verbatim>\<open>players\<close> array of a broadcast.\<close>

definition view :: "bool \<Rightarrow> bool \<Rightarrow> int \<Rightarrow> nat \<times> player \<Rightarrow> player_view" where
  "view withArmor withPrediction playerIndex ip =
     (case ip of (idx, p) \<Rightarrow>
        \<lparr>v_id = pid p, v_name = pname p, v_health = health p, v_maxHealth = maxHealth p,
         v_handSize = length (hand p), v_discardsUsed = discardsUsed p,
         v_maxDiscards = maxDiscards p, v_maxCardsPerDiscard = maxCardsPerDiscard p,
         v_armor = (if withArmor then Some (armor p) else None),
         v_prediction = (if withPrediction then Some (prediction p) else None),
         v_hand = (if int idx = playerIndex then Some (hand p) else None)\<rparr>)"

definition views :: "bool \<Rightarrow> bool \<Rightarrow> int \<Rightarrow> player list \<Rightarrow> player_view list" where
  "views withArmor withPrediction playerIndex ps =
     map (view withArmor withPrediction playerIndex) (enumerate 0 ps)"

section \<open>Starting a game (startGame, acceptRematch)\<close>

text \<open>
  The body of \<^verbatim>\<open>room.players.forEach((player, index) => ...)\<close>, which the two
  functions share word for word. \<^verbatim>\<open>deck.slice(index * 8, (index + 1) * 8)\<close> is the
  block of eight cards at \<open>index * 8\<close>.
\<close>

definition dealPlayer :: "string \<Rightarrow> card list \<Rightarrow> nat \<times> player \<Rightarrow> player" where
  "dealPlayer mode fresh ip =
     (case ip of (index, p) \<Rightarrow>
        (let p1 = p\<lparr>health := startingHealth mode, maxHealth := startingHealth mode,
                    hand := take 8 (drop (index * 8) fresh), selectedCards := [],
                    discardsUsed := 0, maxDiscards := 3, maxCardsPerDiscard := 3\<rparr>
         in if mode = TACTICAL then p1\<lparr>armor := 0, prediction := None, parryCards := []\<rparr>
            else p1))"

definition startGame :: "server \<Rightarrow> room_id \<Rightarrow> outcome" where
  "startGame s roomId =
     (case rooms s roomId of
        None \<Rightarrow> silent s
      | Some room \<Rightarrow>
          if length (players room) \<noteq> 2 then silent s
          else
            (case createDeck (random s) of (fresh, rs1) \<Rightarrow>
             case random_below 2 rs1 of (first, rs2) \<Rightarrow>
               (let room' = room\<lparr>players :=
                                   map (dealPlayer (gameMode room) fresh)
                                     (enumerate 0 (players room)),
                                 gameState := Playing, currentPlayer := int first, turn := 1,
                                 deck := drop 16 fresh,
                                 discardPile :=
                                   (if gameMode room = RECYCLING then [] else discardPile room)\<rparr>
                in emits ((put_room s roomId room')\<lparr>random := rs2\<rparr>)
                     ((ToRoom roomId, GameStarted room')
                      # map (\<lambda>p. (ToSocket (pid p), GameStarted room')) (players room')))))"

text \<open>
  \<^verbatim>\<open>acceptRematch\<close> repeats the body of \<^verbatim>\<open>startGame\<close> behind the guard
  \<^verbatim>\<open>if (!room || !player) return\<close>. Its \<^verbatim>\<open>console.log\<close> reads
  \<^verbatim>\<open>room.players[room.currentPlayer].name\<close> after the players, the state and the
  current player have been written and before the turn, the deck and the last hand are.
\<close>

definition acceptRematch :: "server \<Rightarrow> socket_id \<Rightarrow> room_id \<Rightarrow> outcome" where
  "acceptRematch s sock roomId =
     (case rooms s roomId of
        None \<Rightarrow> silent s
      | Some room \<Rightarrow>
          (case sessions s sock of
             None \<Rightarrow> silent s
           | Some _ \<Rightarrow>
               (case createDeck (random s) of (fresh, rs1) \<Rightarrow>
                case random_below 2 rs1 of (first, rs2) \<Rightarrow>
                  (let room1 = room\<lparr>players :=
                                      map (dealPlayer (gameMode room) fresh)
                                        (enumerate 0 (players room)),
                                    gameState := Playing, currentPlayer := int first\<rparr>
                   in case player_at (players room1) (int first) of
                        None \<Rightarrow> throws ((put_room s roomId room1)\<lparr>random := rs2\<rparr>)
                      | Some _ \<Rightarrow>
                          (let room' = room1\<lparr>turn := 1, deck := drop 16 fresh,
                                             lastPlayedHand := None,
                                             discardPile :=
                                               (if gameMode room = RECYCLING then []
                                                else discardPile room)\<rparr>
                           in emits ((put_room s roomId room')\<lparr>random := rs2\<rparr>)
                                [(ToRoom roomId, RematchAccepted room')])))))"

section \<open>Selection toggles and discard\<close>

definition selectCard :: "server \<Rightarrow> socket_id \<Rightarrow> room_id \<Rightarrow> card_id \<Rightarrow> outcome" where
  "selectCard s sock roomId cardId =
     (case rooms s roomId of
        None \<Rightarrow> silent s
      | Some room \<Rightarrow>
          (case sessions s sock of
             None \<Rightarrow> silent s
           | Some _ \<Rightarrow>
               if gameState room \<noteq> Playing then silent s
               else
                 (let playerIndex = findIndex (\<lambda>p. pid p = sock) (players room)
                  in if playerIndex \<noteq> currentPlayer room then silent s
                     else
                       (case player_at (players room) playerIndex of
                          None \<Rightarrow> throws s
                        | Some cur \<Rightarrow>
                            (case find (\<lambda>c. cid c = cardId) (hand cur) of
                               None \<Rightarrow> silent s
                             | Some found \<Rightarrow>
                                 (let hand' = update_first (\<lambda>c. cid c = cardId)
                                                (\<lambda>c. c\<lparr>selected := \<not> selected c\<rparr>) (hand cur);
                                      cur' = cur\<lparr>hand := hand',
                                                 selectedCards := filter selected hand'\<rparr>
                                  in emits (put_room s roomId (set_player room playerIndex cur'))
                                       [(ToRoom roomId,
                                         CardSelected playerIndex cardId (\<not> selected found))]))))))"

definition markForDiscard :: "server \<Rightarrow> socket_id \<Rightarrow> room_id \<Rightarrow> card_id \<Rightarrow> outcome" where
  "markForDiscard s sock roomId cardId =
     (case rooms s roomId of
        None \<Rightarrow> silent s
      | Some room \<Rightarrow>
          (case sessions s sock of
             None \<Rightarrow> silent s
           | Some _ \<Rightarrow>
               if gameState room \<noteq> Playing then silent s
               else
                 (let playerIndex = findIndex (\<lambda>p. pid p = sock) (players room)
                  in if playerIndex \<noteq> currentPlayer room then silent s
                     else
                       (case player_at (players room) playerIndex of
                          None \<Rightarrow> throws s
                        | Some cur \<Rightarrow>
                            (case find (\<lambda>c. cid c = cardId) (hand cur) of
                               None \<Rightarrow> silent s
                             | Some found \<Rightarrow>
                                 (let hand' = update_first (\<lambda>c. cid c = cardId)
                                                (\<lambda>c. c\<lparr>markedForDiscard := \<not> markedForDiscard c\<rparr>)
                                                (hand cur);
                                      cur' = cur\<lparr>hand := hand'\<rparr>
                                  in emits (put_room s roomId (set_player room playerIndex cur'))
                                       [(ToRoom roomId,
                                         CardMarkedForDiscard playerIndex cardId
                                           (\<not> markedForDiscard found))]))))))"

text \<open>
  \<^verbatim>\<open>room.deck.splice(0, n)\<close> removes and returns the first \<open>n\<close> cards of the deck, or
  all of them when the deck is shorter.
\<close>

definition discardCards :: "server \<Rightarrow> socket_id \<Rightarrow> room_id \<Rightarrow> outcome" where
  "discardCards s sock roomId =
     (case rooms s roomId of
        None \<Rightarrow> silent s
      | Some room \<Rightarrow>
          (case sessions s sock of
             None \<Rightarrow> silent s
           | Some _ \<Rightarrow>
               if gameState room \<noteq> Playing then silent s
               else
                 (let playerIndex = findIndex (\<lambda>p. pid p = sock) (players room)
                  in if playerIndex \<noteq> currentPlayer room then silent s
                     else
                       (case player_at (players room) playerIndex of
                          None \<Rightarrow> throws s
                        | Some cur \<Rightarrow>
                            (let markedCards = filter markedForDiscard (hand cur)
                             in if length markedCards = 0
                                   \<or> int (length markedCards) > maxCardsPerDiscard cur
                                   \<or> discardsUsed cur \<ge> maxDiscards cur
                                then silent s
                                else
                                  (let hand1 = filter (\<lambda>c. \<not> markedForDiscard c) (hand cur);
                                       pile1 = (if gameMode room = RECYCLING
                                                then discardPile room @ map clearFlags markedCards
                                                else discardPile room);
                                       newCards = map clearFlags
                                                    (take (length markedCards) (deck room));
                                       cur' = cur\<lparr>hand := hand1 @ newCards,
                                                  discardsUsed := discardsUsed cur + 1\<rparr>;
                                       room' = (set_player room playerIndex cur')
                                                 \<lparr>deck := drop (length markedCards) (deck room),
                                                  discardPile := pile1\<rparr>
                                   in emits (put_room s roomId room')
                                        [(ToRoom roomId,
                                          GameStateUpdate
                                            (views (gameMode room = TACTICAL) False playerIndex
                                               (players room')))]))))))"

section \<open>Prediction (makePrediction)\<close>

definition makePrediction ::
  "server \<Rightarrow> socket_id \<Rightarrow> room_id \<Rightarrow> string option \<Rightarrow> outcome" where
  "makePrediction s sock roomId pred =
     (case rooms s roomId of
        None \<Rightarrow> silent s
      | Some room \<Rightarrow>
          (case sessions s sock of
             None \<Rightarrow> silent s
           | Some _ \<Rightarrow>
               if gameMode room \<noteq> TACTICAL then silent s
               else
                 (let playerIndex = findIndex (\<lambda>p. pid p = sock) (players room)
                  in if playerIndex = currentPlayer room
                     then emits s [(ToSocket sock, ErrorMessage ''You cannot predict your own hand'')]
                     else
                       (case player_at (players room) playerIndex of
                          None \<Rightarrow> throws s
                        | Some cur \<Rightarrow>
                            emits (put_room s roomId
                                     (set_player room playerIndex (cur\<lparr>prediction := pred\<rparr>)))
                              [(ToRoom roomId, PredictionMade playerIndex pred)]))))"

section \<open>Turn-ending actions (playHand, buildArmor)\<close>

text \<open>
  ``Tactical mode: Check prediction''. The damage is an integer, so
  \<^verbatim>\<open>Math.floor(d * 0.25)\<close> and \<^verbatim>\<open>Math.floor(d * 1.25)\<close> are the integer quotients
  \<open>d div 4\<close> and \<open>d * 5 div 4\<close> (the products are exact in double precision).
\<close>

definition checkPrediction :: "string \<Rightarrow> hand_result \<Rightarrow> player \<Rightarrow> int \<times> player" where
  "checkPrediction mode handResult enemy =
     (if mode = TACTICAL \<and> truthy (prediction enemy) then
        ((if prediction enemy = Some (htype handResult) then damage handResult div 4
          else damage handResult * 5 div 4),
         enemy\<lparr>prediction := None\<rparr>)
      else (damage handResult, enemy))"

text \<open>``Tactical mode: Apply armor''.\<close>

definition applyArmor :: "string \<Rightarrow> int \<Rightarrow> player \<Rightarrow> int \<times> player" where
  "applyArmor mode finalDamage enemy =
     (if mode = TACTICAL \<and> armor enemy > 0 then
        (let armorAbsorbed = min (armor enemy) finalDamage
         in (finalDamage - armorAbsorbed, enemy\<lparr>armor := armor enemy - armorAbsorbed\<rparr>))
      else (finalDamage, enemy))"

text \<open>
  ``Handle played cards based on game mode'': in a Recycling room the played cards go to
  the discard pile, and a low deck takes the shuffled pile at its bottom. The result is
  the deck, the pile and the random source afterwards.
\<close>

definition recycle ::
  "string \<Rightarrow> card list \<Rightarrow> card list \<Rightarrow> card list \<Rightarrow> random_source
     \<Rightarrow> card list \<times> card list \<times> random_source" where
  "recycle mode playedCards dk pile rs =
     (if mode = RECYCLING then
        (let pile1 = pile @ map clearFlags playedCards
         in if length dk < 8 \<and> length pile1 > 0 then
              (case shuffle pile1 rs of (shuffled, rs') \<Rightarrow> (dk @ shuffled, [], rs'))
            else (dk, pile1, rs))
      else (dk, pile, rs))"

text \<open>``Switch turns'' and \<^verbatim>\<open>room.players[room.currentPlayer].discardsUsed = 0\<close>.\<close>

definition switchTurns :: "room \<Rightarrow> room" where
  "switchTurns r = r\<lparr>currentPlayer := 1 - currentPlayer r, turn := turn r + 1\<rparr>"

definition resetDiscards :: "room \<Rightarrow> room option" where
  "resetDiscards r =
     (case player_at (players r) (currentPlayer r) of
        None \<Rightarrow> None
      | Some p \<Rightarrow> Some (set_player r (currentPlayer r) (p\<lparr>discardsUsed := 0\<rparr>)))"

text \<open>
  \<^verbatim>\<open>playHand\<close> from \<^verbatim>\<open>const handResult = evaluateHand(...)\<close> on: the
  resolution of a validated hand of the player \<open>cur\<close> at \<open>playerIndex\<close> against
  \<open>enemy\<close> at \<open>1 - playerIndex\<close>.
\<close>

definition playHand_resolve ::
  "server \<Rightarrow> room_id \<Rightarrow> room \<Rightarrow> int \<Rightarrow> player \<Rightarrow> player \<Rightarrow> outcome" where
  "playHand_resolve s roomId room playerIndex cur enemy =
     (let handResult = evaluateHand (selectedCards cur)
      in case checkPrediction (gameMode room) handResult enemy of (damage1, enemy1) \<Rightarrow>
         case applyArmor (gameMode room) damage1 enemy1 of (finalDamage, enemy2) \<Rightarrow>
         case recycle (gameMode room) (filter selected (hand cur)) (deck room)
                (discardPile room) (random s) of (deck1, pile1, rs1) \<Rightarrow>
           (let enemy3 = enemy2\<lparr>health := max 0 (health enemy2 - finalDamage)\<rparr>;
                cur1 = cur\<lparr>hand := map clearFlags (take 8 deck1), selectedCards := []\<rparr>;
                lastHand = handResult\<lparr>damage := finalDamage\<rparr>;
                room1 = (set_player (set_player room (1 - playerIndex) enemy3) playerIndex cur1)
                          \<lparr>deck := drop 8 deck1, discardPile := pile1,
                           lastPlayedHand := Some lastHand\<rparr>
            in if health enemy3 \<le> 0 then
                 emits ((put_room s roomId (room1\<lparr>gameState := Ended\<rparr>))\<lparr>random := rs1\<rparr>)
                   [(ToRoom roomId, GameEnded cur1 lastHand)]
               else
                 (case resetDiscards (switchTurns room1) of
                    None \<Rightarrow> throws ((put_room s roomId (switchTurns room1))\<lparr>random := rs1\<rparr>)
                  | Some room2 \<Rightarrow>
                      emits ((put_room s roomId room2)\<lparr>random := rs1\<rparr>)
                        [(ToRoom roomId,
                          HandPlayed playerIndex lastHand (currentPlayer room2) (turn room2)
                            (views (gameMode room = TACTICAL) (gameMode room = TACTICAL)
                               playerIndex (players room2)))])))"

text \<open>
  The guards of \<^verbatim>\<open>playHand\<close>. The opponent \<^verbatim>\<open>room.players[1 - playerIndex]\<close>
  is first used in the resolution; when it is \<^verbatim>\<open>undefined\<close> the first access
  throws before anything has been written.
\<close>

definition playHand :: "server \<Rightarrow> socket_id \<Rightarrow> room_id \<Rightarrow> outcome" where
  "playHand s sock roomId =
     (case rooms s roomId of
        None \<Rightarrow> silent s
      | Some room \<Rightarrow>
          (case sessions s sock of
             None \<Rightarrow> silent s
           | Some _ \<Rightarrow>
               if gameState room \<noteq> Playing then silent s
               else
                 (let playerIndex = findIndex (\<lambda>p. pid p = sock) (players room)
                  in if playerIndex \<noteq> currentPlayer room then silent s
                     else
                       (case player_at (players room) playerIndex of
                          None \<Rightarrow> throws s
                        | Some cur \<Rightarrow>
                            if length (selectedCards cur) = 0 then silent s
                            else
                              (case validateHand (selectedCards cur) of
                                 Invalid e \<Rightarrow> emits s [(ToSocket sock, InvalidHandMessage e)]
                               | Valid \<Rightarrow>
                                   (case player_at (players room) (1 - playerIndex) of
                                      None \<Rightarrow> throws s
                                    | Some enemy \<Rightarrow>
                                        playHand_resolve s roomId room playerIndex cur enemy))))))"

text \<open>The \<^verbatim>\<open>switch (handResult.type)\<close> of \<^verbatim>\<open>buildArmor\<close>.\<close>

definition armorGained_of :: "string \<Rightarrow> int" where
  "armorGained_of t =
     (if t = ''High Card'' then 2
      else if t = ''One Pair'' then 5
      else if t = ''Two Pair'' then 8
      else if t = ''Three of a Kind'' then 12
      else if t = ''Straight'' then 15
      else if t = ''Flush'' then 18
      else if t = ''Full House'' then 22
      else if t = ''Four of a Kind'' then 25
      else if t = ''Straight Flush'' then 30
      else if t = ''Royal Flush'' then 35
      else 2)"

text \<open>
  \<^verbatim>\<open>buildArmor\<close> from ``Calculate armor based on hand type'' on, for the player
  \<open>cur\<close> at \<open>playerIndex\<close> with a validated selection.
\<close>

definition buildArmor_resolve ::
  "server \<Rightarrow> room_id \<Rightarrow> room \<Rightarrow> int \<Rightarrow> player \<Rightarrow> outcome" where
  "buildArmor_resolve s roomId room playerIndex cur =
     (let handResult = evaluateHand (selectedCards cur);
          armorGained = armorGained_of (htype handResult);
          newArmor = min 50 (armor cur + armorGained);
          actualArmorGained = newArmor - armor cur
      in case recycle (gameMode room) (filter selected (hand cur)) (deck room)
                (discardPile room) (random s) of (deck1, pile1, rs1) \<Rightarrow>
           (let cur1 = cur\<lparr>armor := newArmor, hand := map clearFlags (take 8 deck1),
                          selectedCards := []\<rparr>;
                room1 = (set_player room playerIndex cur1)
                          \<lparr>deck := drop 8 deck1, discardPile := pile1\<rparr>
            in case resetDiscards (switchTurns room1) of
                 None \<Rightarrow> throws ((put_room s roomId (switchTurns room1))\<lparr>random := rs1\<rparr>)
               | Some room2 \<Rightarrow>
                   emits ((put_room s roomId room2)\<lparr>random := rs1\<rparr>)
                     [(ToRoom roomId,
                       ArmorBuilt playerIndex actualArmorGained handResult
                         (currentPlayer room2) (turn room2)
                         (views True True playerIndex (players room2)))]))"

definition buildArmor :: "server \<Rightarrow> socket_id \<Rightarrow> room_id \<Rightarrow> outcome" where
  "buildArmor s sock roomId =
     (case rooms s roomId of
        None \<Rightarrow> silent s
      | Some room \<Rightarrow>
          (case sessions s sock of
             None \<Rightarrow> silent s
           | Some _ \<Rightarrow>
               if gameMode room \<noteq> TACTICAL \<or> gameState room \<noteq> Playing then silent s
               else
                 (let playerIndex = findIndex (\<lambda>p. pid p = sock) (players room)
                  in if playerIndex \<noteq> currentPlayer room
                     then emits s
                            [(ToSocket sock, ErrorMessage ''You can only build armor on your turn'')]
                     else
                       (case player_at (players room) playerIndex of
                          None \<Rightarrow> throws s
                        | Some cur \<Rightarrow>
                            if length (selectedCards cur) = 0
                            then emits s [(ToSocket sock, ErrorMessage ''No cards selected'')]
                            else
                              (case validateHand (selectedCards cur) of
                                 Invalid e \<Rightarrow> emits s [(ToSocket sock, InvalidHandMessage e)]
                               | Valid \<Rightarrow>
                                   buildArmor_resolve s roomId room playerIndex cur)))))"

section \<open>Example states\<close>

text \<open>
  A room with the players Alice (index 0, whose turn it is) and Bob, in a chosen mode and
  state, at its fifth turn. Alice has selected a pair of fives and marked the nine of
  hearts for discard; Bob has ten points of armor. The session of Eve is registered but is
  in no room. The draw pile has four cards left and, in a Recycling room, the discard pile
  holds five.
\<close>

definition mk_card :: "suit \<Rightarrow> int \<Rightarrow> bool \<Rightarrow> card" where
  "mk_card s r sel =
     \<lparr>cid = CardId s r 0, suit = s, rank = r, selected = sel, markedForDiscard = False\<rparr>"

definition alice :: player where
  "alice =
     \<lparr>pid = ''alice'', pname = ''Alice'', health = 100, maxHealth = 100,
      hand = [mk_card Clubs 5 True, mk_card Diamonds 5 True,
              (mk_card Hearts 9 False)\<lparr>markedForDiscard := True\<rparr>,
              mk_card Spades 13 False, mk_card Diamonds 2 False, mk_card Clubs 3 False,
              mk_card Spades 8 False, mk_card Hearts 11 False],
      selectedCards = [mk_card Clubs 5 True, mk_card Diamonds 5 True],
      discardsUsed = 0, maxDiscards = 3, maxCardsPerDiscard = 3,
      armor = 0, prediction = None, parryCards = []\<rparr>"

definition bob :: "int \<Rightarrow> player" where
  "bob hp =
     \<lparr>pid = ''bob'', pname = ''Bob'', health = hp, maxHealth = 100,
      hand = [mk_card Hearts 1 False, mk_card Hearts 4 False, mk_card Clubs 9 False,
              mk_card Spades 12 False, mk_card Diamonds 7 False, mk_card Clubs 10 False,
              mk_card Spades 6 False, mk_card Hearts 3 False],
      selectedCards = [],
      discardsUsed = 0, maxDiscards = 3, maxCardsPerDiscard = 3,
      armor = 10, prediction = None, parryCards = []\<rparr>"

definition duel :: "string \<Rightarrow> game_state \<Rightarrow> int \<Rightarrow> room" where
  "duel mode st hp =
     \<lparr>rid = ''room-1'', rname = ''Duel'', gameMode = mode, players = [alice, bob hp],
      gameState = st, currentPlayer = 0, turn = 5,
      deck = [mk_card Clubs 1 False, mk_card Diamonds 12 False, mk_card Spades 4 False,
              mk_card Hearts 7 False],
      discardPile =
        (if mode = RECYCLING
         then [mk_card Spades 2 False, mk_card Spades 3 False, mk_card Clubs 6 False,
               mk_card Diamonds 9 False, mk_card Hearts 13 False]
         else []),
      lastPlayedHand = None\<rparr>"

definition duel_server :: "string \<Rightarrow> game_state \<Rightarrow> int \<Rightarrow> server" where
  "duel_server mode st hp =
     \<lparr>rooms = [''room-1'' \<mapsto> duel mode st hp],
      sessions = [''alice'' \<mapsto> \<lparr>sname = ''Alice'', sroom = Some ''room-1''\<rparr>,
                  ''bob'' \<mapsto> \<lparr>sname = ''Bob'', sroom = Some ''room-1''\<rparr>,
                  ''eve'' \<mapsto> \<lparr>sname = ''Eve'', sroom = None\<rparr>],
      random = [3, 7, 4, 5, 5, 9, 2, 6]\<rparr>"

text \<open>
  The same room after the game has ended and Bob has left it: Alice is its only player.
\<close>

definition lonely_room :: room where
  "lonely_room = (duel CLASSIC Ended 0)\<lparr>players := [alice]\<rparr>"

definition lonely_server :: server where
  "lonely_server = (duel_server CLASSIC Ended 0)\<lparr>rooms := [''room-1'' \<mapsto> lonely_room]\<rparr>"

section \<open>The rules of the game as the specification words them\<close>


text \<open>
  The cards of a room: the hands of its players, the draw pile and the discard pile, and
  the multiset of their ids. Conservation of the cards says that this multiset never
  changes; \<open>no_duplicates\<close> says that no id occurs twice in it.
\<close>

definition all_cards :: "room \<Rightarrow> card list" where
  "all_cards r = concat (map hand (players r)) @ deck r @ discardPile r"

definition card_ids :: "room \<Rightarrow> card_id multiset" where
  "card_ids r = mset (map cid (all_cards r))"

definition ids :: "card list \<Rightarrow> card_id multiset" where
  "ids cs = mset (map cid cs)"

definition no_duplicates :: "room \<Rightarrow> bool" where
  "no_duplicates r = distinct (map cid (all_cards r))"

text \<open>The suit and rank that an id was made from.\<close>

fun card_key :: "card_id \<Rightarrow> suit \<times> int" where
  "card_key (CardId s r x) = (s, r)"

section \<open>An example game from the start\<close>

text \<open>
  The example room before its game: \<open>startGame\<close> deals from a new deck (the random
  source runs out during the ids, so that every later draw is 0 and Alice begins), Alice
  selects her first card, the two of hearts, and plays it.
\<close>

definition game_started :: "string \<Rightarrow> server" where
  "game_started mode = final (startGame (duel_server mode Waiting 100) ''room-1'')"

definition game_picked :: "string \<Rightarrow> server" where
  "game_picked mode = final (selectCard (game_started mode) ''alice'' ''room-1'' (CardId Hearts 2 7))"

definition game_played :: "string \<Rightarrow> server" where
  "game_played mode = final (playHand (game_picked mode) ''alice'' ''room-1'')"

definition room_card_ids :: "server \<Rightarrow> room_id \<Rightarrow> card_id list" where
  "room_card_ids s roomId = (case rooms s roomId of None \<Rightarrow> [] | Some r \<Rightarrow> map cid (all_cards r))"

section \<open>Properties of validation and classification\<close>

subsection \<open>The sorted ranks and the count table\<close>

lemma len2: "length ys = 2 \<Longrightarrow> \<exists>a b. ys = [a,b]"
  by (auto simp: eval_nat_numeral length_Suc_conv)
lemma len3: "length ys = 3 \<Longrightarrow> \<exists>a b c. ys = [a,b,c]"
  by (auto simp: eval_nat_numeral length_Suc_conv)
lemma len4: "length ys = 4 \<Longrightarrow> \<exists>a b c d. ys = [a,b,c,d]"
  by (auto simp: eval_nat_numeral length_Suc_conv)
lemma len5: "length ys = 5 \<Longrightarrow> \<exists>a b c d e. ys = [a,b,c,d,e]"
  by (auto simp: eval_nat_numeral length_Suc_conv)

lemma sorted_ranks_of: "sorted (ranks_of cards)"
  by (simp add: ranks_of_def sortedCards_of_def)

lemma mset_ranks_of: "mset (ranks_of cards) = mset (map rank cards)"
  by (simp add: ranks_of_def sortedCards_of_def)

lemma length_ranks_of: "length (ranks_of cards) = length cards"
  by (simp add: ranks_of_def sortedCards_of_def)

lemma set_ranks_of: "set (ranks_of cards) = set (map rank cards)"
  by (simp add: ranks_of_def sortedCards_of_def)

lemma count_ranks_of: "count_list (ranks_of cards) x = count_list (map rank cards) x"
proof -
  have "count (mset (ranks_of cards)) x = count (mset (map rank cards)) x"
    by (simp only: mset_ranks_of)
  then show ?thesis by (simp only: count_mset)
qed

lemma distinct_ranks_of: "distinct (ranks_of cards) = distinct (map rank cards)"
  by (rule mset_eq_imp_distinct_iff) (rule mset_ranks_of)

lemma suits_of_set: "set (suits_of cards) = suit ` set cards"
  by (simp add: suits_of_def sortedCards_of_def)

lemma all_suits_iff:
  assumes "c0 \<in> set cards"
  shows "(\<forall>c\<in>set cards. suit c = suit c0) = spec_flush cards"
  unfolding spec_flush_def using assms by metis

lemma isFlush_spec: "isFlush_of cards = (spec_flush cards \<and> length cards = 5)"
proof (cases "suits_of cards")
  case Nil
  then have "set (suits_of cards) = {}" by simp
  then have "cards = []" by (simp add: suits_of_set)
  then show ?thesis by (simp add: isFlush_of_def)
next
  case (Cons s0 ss)
  then have "s0 \<in> set (suits_of cards)" by simp
  then obtain c0 where c0: "c0 \<in> set cards" "s0 = suit c0"
    unfolding suits_of_set by blast
  have "list_all (\<lambda>s. s = s0) (suits_of cards) = (\<forall>c\<in>set cards. suit c = suit c0)"
    unfolding list_all_iff suits_of_set c0(2) by blast
  then have "list_all (\<lambda>s. s = s0) (suits_of cards) = spec_flush cards"
    using all_suits_iff[OF c0(1)] by simp
  then show ?thesis unfolding isFlush_of_def Cons by simp
qed

lemma counts5:
  assumes "a \<le> b" "b \<le> c" "c \<le> d" "d \<le> (e::int)"
  shows "rev (sort (map snd (rankCounts_of [a,b,c,d,e]))) =
    (if a = e then [5]
     else if a = d \<or> b = e then [4,1]
     else if (a = c \<and> d = e) \<or> (a = b \<and> c = e) then [3,2]
     else if a = c \<or> b = d \<or> c = e then [3,1,1]
     else if (a = b \<and> c = d) \<or> (a = b \<and> d = e) \<or> (b = c \<and> d = e) then [2,2,1]
     else if a = b \<or> b = c \<or> c = d \<or> d = e then [2,1,1,1]
     else [1,1,1,1,1])"
  using assms by (auto simp: rankCounts_of_def)

lemma counts4:
  assumes "a \<le> b" "b \<le> c" "c \<le> (d::int)"
  shows "rev (sort (map snd (rankCounts_of [a,b,c,d]))) =
    (if a = d then [4]
     else if a = c \<or> b = d then [3,1]
     else if a = b \<and> c = d then [2,2]
     else if a = b \<or> b = c \<or> c = d then [2,1,1]
     else [1,1,1,1])"
  using assms by (auto simp: rankCounts_of_def)

lemma counts3:
  assumes "a \<le> b" "b \<le> (c::int)"
  shows "rev (sort (map snd (rankCounts_of [a,b,c]))) =
    (if a = c then [3]
     else if a = b \<or> b = c then [2,1]
     else [1,1,1])"
  using assms by (auto simp: rankCounts_of_def)

lemma counts2:
  assumes "a \<le> (b::int)"
  shows "rev (sort (map snd (rankCounts_of [a,b]))) = (if a = b then [2] else [1,1])"
  using assms by (auto simp: rankCounts_of_def)

lemma same_rank_iff: "spec_same_rank cards = (\<forall>x\<in>set (ranks_of cards). \<forall>y\<in>set (ranks_of cards). x = y)"
  by (auto simp: spec_same_rank_def set_ranks_of)

subsection \<open>Validation by number of cards\<close>

lemma valid2:
  assumes "length cards = 2"
  shows "(validateHand cards = Valid) = spec_same_rank cards"
proof -
  from assms obtain a b where r: "ranks_of cards = [a,b]"
    using len2[of "ranks_of cards"] by (auto simp: length_ranks_of)
  with sorted_ranks_of[of cards] have o: "a \<le> b" by simp
  show ?thesis using assms o
    by (auto simp: validateHand_def counts_of_def r counts2 elem_at_def same_rank_iff)
qed

lemma valid3:
  assumes "length cards = 3"
  shows "(validateHand cards = Valid) = spec_same_rank cards"
proof -
  from assms obtain a b c where r: "ranks_of cards = [a,b,c]"
    using len3[of "ranks_of cards"] by (auto simp: length_ranks_of)
  with sorted_ranks_of[of cards] have o: "a \<le> b" "b \<le> c" by simp_all
  show ?thesis using assms o
    by (auto simp: validateHand_def counts_of_def r counts3 elem_at_def same_rank_iff)
qed

lemma two_pair_iff: "spec_two_pair cards = (\<exists>x\<in>set (ranks_of cards). \<exists>y\<in>set (ranks_of cards).
        x \<noteq> y \<and> count_list (ranks_of cards) x = 2 \<and> count_list (ranks_of cards) y = 2)"
  unfolding spec_two_pair_def count_ranks_of set_ranks_of ..

lemma valid4:
  assumes "length cards = 4"
  shows "(validateHand cards = Valid) = (spec_same_rank cards \<or> spec_two_pair cards)"
proof -
  from assms obtain a b c d where r: "ranks_of cards = [a,b,c,d]"
    using len4[of "ranks_of cards"] by (auto simp: length_ranks_of)
  with sorted_ranks_of[of cards] have o: "a \<le> b" "b \<le> c" "c \<le> d" by simp_all
  have v: "(validateHand cards = Valid) = (a = d \<or> (a = b \<and> c = d))"
    using assms o by (auto simp: validateHand_def counts_of_def r counts4 elem_at_def)
  have s: "spec_same_rank cards = (a = d)"
    using o by (auto simp: same_rank_iff r)
  have t: "spec_two_pair cards = (a = b \<and> c = d \<and> b \<noteq> c)"
    using o by (auto simp: two_pair_iff r)
  show ?thesis using o unfolding v s t by auto
qed

lemma full_house_iff: "spec_full_house cards = (\<exists>x\<in>set (ranks_of cards). \<exists>y\<in>set (ranks_of cards).
        count_list (ranks_of cards) x = 3 \<and> count_list (ranks_of cards) y = 2)"
  unfolding spec_full_house_def count_ranks_of set_ranks_of ..

lemma straight_iff: "spec_straight cards = (distinct (ranks_of cards) \<and>
      (set (ranks_of cards) = {1, 2, 3, 4, 5}
       \<or> Max (set (ranks_of cards)) - Min (set (ranks_of cards)) = 4))"
  unfolding spec_straight_def distinct_ranks_of set_ranks_of ..

lemma sorted5_set_eq:
  assumes "sorted [a,b,c,d,e::int]" "sorted [p,q,r,s,t]" "distinct [p,q,r,s,t]"
    "set [a,b,c,d,e] = set [p,q,r,s,t]"
  shows "[a,b,c,d,e] = [p,q,r,s,t]"
proof -
  have "card (set [a,b,c,d,e]) = length [a,b,c,d,e]"
    using assms(3,4) distinct_card[of "[p,q,r,s,t]"] by simp
  then have "distinct [a,b,c,d,e]" by (rule card_distinct)
  with assms show ?thesis using sorted_distinct_set_unique by blast
qed

lemma max_min5:
  assumes "a \<le> b" "b \<le> c" "c \<le> d" "d \<le> (e::int)"
  shows "Max (set [a,b,c,d,e]) = e" "Min (set [a,b,c,d,e]) = a"
  using assms by (auto simp: max_def min_def)

lemma fh5:
  assumes "a \<le> b" "b \<le> c" "c \<le> d" "d \<le> (e::int)"
  shows "(\<exists>x\<in>set [a,b,c,d,e]. \<exists>y\<in>set [a,b,c,d,e].
        count_list [a,b,c,d,e] x = 3 \<and> count_list [a,b,c,d,e] y = 2)
     = ((a = c \<and> d = e \<and> c \<noteq> d) \<or> (a = b \<and> c = e \<and> b \<noteq> c))"
  using assms by auto

lemma set5_wheel:
  assumes "a \<le> b" "b \<le> c" "c \<le> d" "d \<le> (e::int)"
  shows "(set [a,b,c,d,e] = {1,2,3,4,5}) = ([a,b,c,d,e] = [1,2,3,4,5])"
proof
  assume s: "set [a,b,c,d,e] = {1,2,3,4,5}"
  have "[a,b,c,d,e] = [1,2,3,4,5]"
    by (rule sorted5_set_eq) (use assms s in auto)
  then show "[a,b,c,d,e] = [1,2,3,4,5]" .
next
  assume "[a,b,c,d,e] = [1,2,3,4,5]"
  then show "set [a,b,c,d,e] = {1,2,3,4,5}" by auto
qed

lemma set5_royal:
  assumes "a \<le> b" "b \<le> c" "c \<le> d" "d \<le> (e::int)"
  shows "(set [a,b,c,d,e] = {1,10,11,12,13}) = ([a,b,c,d,e] = [1,10,11,12,13])"
proof
  assume s: "set [a,b,c,d,e] = {1,10,11,12,13}"
  have "[a,b,c,d,e] = [1,10,11,12,13]"
    by (rule sorted5_set_eq) (use assms s in auto)
  then show "[a,b,c,d,e] = [1,10,11,12,13]" .
next
  assume "[a,b,c,d,e] = [1,10,11,12,13]"
  then show "set [a,b,c,d,e] = {1,10,11,12,13}" by auto
qed

lemma remdups5:
  assumes "a \<le> b" "b \<le> c" "c \<le> d" "d \<le> (e::int)"
  shows "(length (remdups [a,b,c,d,e]) = 5) = (a < b \<and> b < c \<and> c < d \<and> d < e)"
  using assms by auto

lemma distinct5:
  assumes "a \<le> b" "b \<le> c" "c \<le> d" "d \<le> (e::int)"
  shows "distinct [a,b,c,d,e] = (a < b \<and> b < c \<and> c < d \<and> d < e)"
  using assms by auto

lemma valid5:
  assumes len: "length cards = 5"
  shows "(validateHand cards = Valid) =
     (spec_royal_flush cards \<or> spec_straight_flush cards \<or> spec_full_house cards
        \<or> spec_flush cards \<or> spec_straight cards)"
proof -
  from len obtain a b c d e where r: "ranks_of cards = [a,b,c,d,e]"
    using len5[of "ranks_of cards"] by (auto simp: length_ranks_of)
  with sorted_ranks_of[of cards] have o: "a \<le> b" "b \<le> c" "c \<le> d" "d \<le> e" by simp_all
  define F where "F = spec_flush cards"
  define D where "D = (a < b \<and> b < c \<and> c < d \<and> d < e)"
  define W where "W = ([a,b,c,d,e] = [1,2,3,4,5])"
  have fl: "isFlush_of cards = F" by (simp add: isFlush_spec len F_def)
  have fd: "five_distinct cards = D"
    unfolding five_distinct_def r D_def using remdups5[OF o] len by simp
  have lo: "isLowStraight_of cards = (D \<and> W)"
    by (simp add: isLowStraight_of_def fd r W_def)
  have st: "isStraight_of cards = (D \<and> \<not> W \<and> e - a = 4)"
    by (auto simp add: isStraight_of_def fd lo r)
  have ro: "isRoyal_of cards = (D \<and> F \<and> [a,b,c,d,e] = [1,10,11,12,13])"
    by (simp add: isRoyal_of_def fd fl r)
  have c0: "(elem_at (counts_of cards) 0 = Some 3 \<and> elem_at (counts_of cards) 1 = Some 2)
      = ((a = c \<and> d = e \<and> c \<noteq> d) \<or> (a = b \<and> c = e \<and> b \<noteq> c))"
    using o by (auto simp: counts_of_def r counts5[OF o] elem_at_def)
  have v: "(validateHand cards = Valid) =
      ((D \<and> F \<and> [a,b,c,d,e] = [1,10,11,12,13]) \<or> (F \<and> D \<and> (W \<or> e - a = 4))
       \<or> ((a = c \<and> d = e \<and> c \<noteq> d) \<or> (a = b \<and> c = e \<and> b \<noteq> c))
       \<or> F \<or> (D \<and> (W \<or> e - a = 4)))"
    unfolding validateHand_def fl lo st ro c0 using len by auto
  have sfh: "spec_full_house cards = ((a = c \<and> d = e \<and> c \<noteq> d) \<or> (a = b \<and> c = e \<and> b \<noteq> c))"
    unfolding full_house_iff r by (rule fh5[OF o])
  have sst: "spec_straight cards = (D \<and> (W \<or> e - a = 4))"
    unfolding straight_iff r distinct5[OF o] max_min5[OF o] set5_wheel[OF o] D_def W_def ..
  have sro: "spec_royal_flush cards = (F \<and> [a,b,c,d,e] = [1,10,11,12,13])"
    unfolding spec_royal_flush_def set_ranks_of[symmetric] r set5_royal[OF o] F_def ..
  have ssf: "spec_straight_flush cards = (F \<and> D \<and> (W \<or> e - a = 4))"
    unfolding spec_straight_flush_def sst F_def ..
  show ?thesis unfolding v sfh sst sro ssf F_def[symmetric] by blast
qed

text \<open>
  C2. For every list of cards, \<open>validateHand\<close> accepts exactly by count: no card is
  invalid, one card is valid, two or three cards are valid iff all ranks are equal, four
  cards iff four of a kind or two distinct pairs, five cards iff royal flush, straight
  flush, full house, flush or straight, and more than five cards are invalid.
\<close>

theorem validate_by_count: "(validateHand cards = Valid) = spec_valid cards"
proof -
  have big: "\<not> (length cards = 0 \<or> length cards = 1 \<or> length cards = 2 \<or> length cards = 3
      \<or> length cards = 4 \<or> length cards = 5) \<Longrightarrow> validateHand cards \<noteq> Valid"
    by (simp add: validateHand_def)
  show ?thesis
    using valid2[of cards] valid3[of cards] valid4[of cards] valid5[of cards] big
    by (auto simp: spec_valid_def validateHand_def)
qed

text \<open>A pair of sevens is accepted; a pair of sevens with a two is not three of a kind.\<close>

theorem validate_by_count_witness:
  "spec_valid sevens \<and> validateHand sevens = Valid \<and>
   \<not> spec_valid sevens_and_two \<and> validateHand sevens_and_two \<noteq> Valid"
proof -
  have a: "spec_valid sevens"
    by (simp add: spec_valid_def spec_same_rank_def sevens_def)
  have b: "\<not> spec_valid sevens_and_two"
    by (simp add: spec_valid_def spec_same_rank_def sevens_and_two_def sevens_def)
  from a b validate_by_count[of sevens] validate_by_count[of sevens_and_two]
  show ?thesis by simp
qed

subsection \<open>Straights\<close>

lemma ranks_of_eq_iff:
  assumes "sorted ys"
  shows "(ranks_of cards = ys) = (mset (map rank cards) = mset ys)"
proof
  assume "ranks_of cards = ys"
  then show "mset (map rank cards) = mset ys" using mset_ranks_of[of cards] by simp
next
  assume m: "mset (map rank cards) = mset ys"
  have a: "mset (ranks_of cards) = mset ys" using m by (simp only: mset_ranks_of)
  have "sort ys = ranks_of cards"
    by (rule properties_for_sort[OF a sorted_ranks_of])
  then show "ranks_of cards = ys" using assms by (simp add: sorted_sort_id)
qed

lemma set_rank_image: "set (map rank cards) = rank ` set cards"
  by simp

text \<open>
  C3. For five cards of five distinct ranks: the wheel flag is set exactly on the ranks
  1,2,3,4,5; the generic straight flag exactly when the highest rank minus the lowest is 4
  and the hand is not the wheel (whose span is 4 too), so a hand is classified as a
  straight or straight flush exactly when the span is 4; the ranks 1,10,11,12,13 set
  neither flag and are recognised as the royal pattern only together with a flush, so
  that without a flush such a hand is invalid.
\<close>

theorem straight_classification:
  assumes len: "length cards = 5" and dist: "distinct (map rank cards)"
  shows
   "isLowStraight_of cards = (mset (map rank cards) = {#1, 2, 3, 4, 5#}) \<and>
    isStraight_of cards =
      (Max (rank ` set cards) - Min (rank ` set cards) = 4 \<and> \<not> isLowStraight_of cards) \<and>
    (htype (evaluateHand cards) = ''Straight'' \<or> htype (evaluateHand cards) = ''Straight Flush'')
      = (Max (rank ` set cards) - Min (rank ` set cards) = 4) \<and>
    (isRoyal_of cards \<longrightarrow> mset (map rank cards) = {#1, 10, 11, 12, 13#}) \<and>
    (mset (map rank cards) = {#1, 10, 11, 12, 13#} \<longrightarrow>
       \<not> isStraight_of cards \<and> \<not> isLowStraight_of cards \<and>
       isRoyal_of cards = spec_flush cards \<and>
       (htype (evaluateHand cards) = ''Royal Flush'') = spec_flush cards \<and>
       (\<not> spec_flush cards \<longrightarrow>
          validateHand cards = Invalid FiveCardsMustForm \<and>
          htype (evaluateHand cards) = ''Invalid Hand'' \<and> damage (evaluateHand cards) = 0))"
proof -
  from len obtain a b c d e where r: "ranks_of cards = [a,b,c,d,e]"
    using len5[of "ranks_of cards"] by (auto simp: length_ranks_of)
  with sorted_ranks_of[of cards] have o: "a \<le> b" "b \<le> c" "c \<le> d" "d \<le> e" by simp_all
  from dist have "distinct (ranks_of cards)" by (simp only: distinct_ranks_of)
  then have D: "a < b" "b < c" "c < d" "d < e"
    unfolding r distinct5[OF o] by simp_all
  have mm: "Max (rank ` set cards) = e" "Min (rank ` set cards) = a"
    using max_min5[OF o] unfolding r[symmetric] set_ranks_of set_rank_image by simp_all
  have fd: "five_distinct cards"
    unfolding five_distinct_def r using remdups5[OF o] len D by simp
  have wheel: "(mset (map rank cards) = {#1, 2, 3, 4, 5#}) = ([a,b,c,d,e] = [1,2,3,4,5])"
    using ranks_of_eq_iff[of "[1,2,3,4,5]" cards] unfolding r by simp
  have royal: "(mset (map rank cards) = {#1, 10, 11, 12, 13#}) = ([a,b,c,d,e] = [1,10,11,12,13])"
    using ranks_of_eq_iff[of "[1,10,11,12,13]" cards] unfolding r by simp
  have lo: "isLowStraight_of cards = ([a,b,c,d,e] = [1,2,3,4,5])"
    by (simp add: isLowStraight_of_def fd r)
  have st: "isStraight_of cards = (e - a = 4 \<and> [a,b,c,d,e] \<noteq> [1,2,3,4,5])"
    by (auto simp add: isStraight_of_def fd lo r)
  have fl: "isFlush_of cards = spec_flush cards" by (simp add: isFlush_spec len)
  have ro: "isRoyal_of cards = (spec_flush cards \<and> [a,b,c,d,e] = [1,10,11,12,13])"
    by (simp add: isRoyal_of_def fd fl r)
  have cn: "counts_of cards = [1,1,1,1,1]"
    unfolding counts_of_def r counts5[OF o] using D by simp
  have sl: "(isStraight_of cards \<or> isLowStraight_of cards) = (e - a = 4)"
    unfolding st lo by auto
  have v: "validateHand cards =
      (if spec_flush cards \<or> e - a = 4 then Valid else Invalid FiveCardsMustForm)"
    unfolding validateHand_def fl sl ro cn using len by (auto simp: elem_at_def)
  have ht: "handType_of cards =
      (if spec_flush cards \<and> [a,b,c,d,e] = [1,10,11,12,13] then ''Royal Flush''
       else if spec_flush cards \<and> e - a = 4 then ''Straight Flush''
       else if spec_flush cards then ''Flush''
       else if e - a = 4 then ''Straight'' else ''High Card'')"
    unfolding handType_of_def fl sl ro cn by (simp add: elem_at_def)
  have ev: "htype (evaluateHand cards) =
      (if spec_flush cards \<or> e - a = 4 then handType_of cards else ''Invalid Hand'')"
    "\<not> (spec_flush cards \<or> e - a = 4) \<Longrightarrow> damage (evaluateHand cards) = 0"
    unfolding evaluateHand_def v using len by (simp_all add: Let_def)
  have p1: "isLowStraight_of cards = (mset (map rank cards) = {#1, 2, 3, 4, 5#})"
    unfolding lo wheel ..
  have p2: "isStraight_of cards =
      (Max (rank ` set cards) - Min (rank ` set cards) = 4 \<and> \<not> isLowStraight_of cards)"
    unfolding st lo mm ..
  have p3: "(htype (evaluateHand cards) = ''Straight'' \<or> htype (evaluateHand cards) = ''Straight Flush'')
      = (Max (rank ` set cards) - Min (rank ` set cards) = 4)"
    unfolding ev ht mm by auto
  have p4: "isRoyal_of cards \<longrightarrow> mset (map rank cards) = {#1, 10, 11, 12, 13#}"
    unfolding ro royal by simp
  have p5: "mset (map rank cards) = {#1, 10, 11, 12, 13#} \<longrightarrow>
       \<not> isStraight_of cards \<and> \<not> isLowStraight_of cards \<and>
       isRoyal_of cards = spec_flush cards \<and>
       (htype (evaluateHand cards) = ''Royal Flush'') = spec_flush cards \<and>
       (\<not> spec_flush cards \<longrightarrow>
          validateHand cards = Invalid FiveCardsMustForm \<and>
          htype (evaluateHand cards) = ''Invalid Hand'' \<and> damage (evaluateHand cards) = 0)"
    unfolding royal
  proof
    assume R: "[a,b,c,d,e] = [1,10,11,12,13]"
    then have ea: "e - a \<noteq> 4" by simp
    show "\<not> isStraight_of cards \<and> \<not> isLowStraight_of cards \<and>
       isRoyal_of cards = spec_flush cards \<and>
       (htype (evaluateHand cards) = ''Royal Flush'') = spec_flush cards \<and>
       (\<not> spec_flush cards \<longrightarrow>
          validateHand cards = Invalid FiveCardsMustForm \<and>
          htype (evaluateHand cards) = ''Invalid Hand'' \<and> damage (evaluateHand cards) = 0)"
      using R ea ev(2) unfolding st lo ro v ev(1) ht by simp
  qed
  from p1 p2 p3 p4 p5 show ?thesis by blast
qed

text \<open>Ace, ten, jack, queen of hearts with the king of spades is not a legal play.\<close>

theorem straight_classification_witness:
  "length broadway_mixed = 5 \<and> distinct (map rank broadway_mixed) \<and>
   mset (map rank broadway_mixed) = {#1, 10, 11, 12, 13#} \<and> \<not> spec_flush broadway_mixed \<and>
   \<not> isStraight_of broadway_mixed \<and> \<not> isLowStraight_of broadway_mixed \<and>
   \<not> isRoyal_of broadway_mixed \<and>
   validateHand broadway_mixed = Invalid FiveCardsMustForm \<and>
   htype (evaluateHand broadway_mixed) = ''Invalid Hand''"
proof -
  have len: "length broadway_mixed = 5" by (simp add: broadway_mixed_def)
  have dist: "distinct (map rank broadway_mixed)" by (simp add: broadway_mixed_def)
  have m: "mset (map rank broadway_mixed) = {#1, 10, 11, 12, 13#}"
    by (simp add: broadway_mixed_def)
  have nf: "\<not> spec_flush broadway_mixed" by (simp add: spec_flush_def broadway_mixed_def)
  have "\<not> isStraight_of broadway_mixed \<and> \<not> isLowStraight_of broadway_mixed \<and>
       isRoyal_of broadway_mixed = spec_flush broadway_mixed \<and>
       (\<not> spec_flush broadway_mixed \<longrightarrow>
          validateHand broadway_mixed = Invalid FiveCardsMustForm \<and>
          htype (evaluateHand broadway_mixed) = ''Invalid Hand'' \<and>
          damage (evaluateHand broadway_mixed) = 0)"
    using straight_classification[OF len dist] m by blast
  with len dist m nf show ?thesis by blast
qed

subsection \<open>Damage\<close>





lemma evaluateHand_valid:
  assumes "validateHand cards = Valid"
  shows "evaluateHand cards =
     \<lparr>htype = handType_of cards,
      damage = ranking_damage (handType_of cards) + faceValueDamage cards,
      description = WithDamage (ranking_description (handType_of cards))
         (ranking_damage (handType_of cards)) (faceValueDamage cards)\<rparr>"
proof -
  from assms have ne: "length cards \<noteq> 0" by (auto simp: validateHand_def)
  show ?thesis using assms ne by (simp add: evaluateHand_def Let_def)
qed









section \<open>Properties of the handlers\<close>

subsection \<open>Lookups, outcomes and the example room\<close>

lemma findIndex_ge: "- 1 \<le> findIndex P xs"
  by (induction xs) auto

lemma findIndex_none: "(findIndex P xs = - 1) = (\<forall>x\<in>set xs. \<not> P x)"
proof (induction xs)
  case Nil
  then show ?case by simp
next
  case (Cons x xs)
  have "findIndex P xs + 1 \<noteq> - 1" using findIndex_ge[of P xs] by arith
  with Cons show ?case by auto
qed

lemma findIndex_some:
  "findIndex P xs \<noteq> - 1 \<Longrightarrow>
     0 \<le> findIndex P xs \<and> findIndex P xs < int (length xs) \<and> P (xs ! nat (findIndex P xs))"
proof (induction xs)
  case Nil
  then show ?case by simp
next
  case (Cons x xs)
  show ?case
  proof (cases "P x")
    case True
    then show ?thesis by simp
  next
    case False
    with Cons.prems have n: "findIndex P xs \<noteq> - 1" by (auto split: if_splits)
    from Cons.IH[OF n] False n show ?thesis
      by (simp add: nat_add_distrib)
  qed
qed

lemma player_at_findIndex:
  "(\<exists>p\<in>set ps. pid p = sock) \<Longrightarrow>
     \<exists>me. player_at ps (findIndex (\<lambda>p. pid p = sock) ps) = Some me \<and> pid me = sock"
proof -
  assume "\<exists>p\<in>set ps. pid p = sock"
  then have "findIndex (\<lambda>p. pid p = sock) ps \<noteq> - 1" by (simp add: findIndex_none)
  from findIndex_some[OF this] show ?thesis by (simp add: player_at_def)
qed

lemma player_at_set_player:
  "player_at (players r) i = Some p \<Longrightarrow>
     player_at (players (set_player r i q)) j = (if j = i then Some q else player_at (players r) j)"
  by (auto simp: player_at_def set_player_def split: if_splits)

lemma final_simps [simp]:
  "final (silent s) = s" "emitted (silent s) = []" "thrown (silent s) = None"
  "final (emits s es) = s" "emitted (emits s es) = es" "thrown (emits s es) = None"
  "final (throws s) = s" "emitted (throws s) = []" "thrown (throws s) = Some TypeError"
  by (simp_all add: silent_def emits_def throws_def)

lemma rooms_put_room [simp]: "rooms (put_room s roomId r) roomId = Some r"
  by (simp add: put_room_def)

lemma duel_room [simp]: "rooms (duel_server mode st hp) ''room-1'' = Some (duel mode st hp)"
  by (simp add: duel_server_def)

lemma duel_sessions [simp]:
  "sessions (duel_server mode st hp) ''alice'' = Some \<lparr>sname = ''Alice'', sroom = Some ''room-1''\<rparr>"
  "sessions (duel_server mode st hp) ''bob'' = Some \<lparr>sname = ''Bob'', sroom = Some ''room-1''\<rparr>"
  "sessions (duel_server mode st hp) ''eve'' = Some \<lparr>sname = ''Eve'', sroom = None\<rparr>"
  by (simp_all add: duel_server_def)

lemma duel_fields [simp]:
  "gameMode (duel mode st hp) = mode" "gameState (duel mode st hp) = st"
  "currentPlayer (duel mode st hp) = 0" "players (duel mode st hp) = [alice, bob hp]"
  "turn (duel mode st hp) = 5"
  by (simp_all add: duel_def)

lemma duel_pids [simp]: "pid alice = ''alice''" "pid (bob hp) = ''bob''"
  by (simp_all add: alice_def bob_def)

lemma alice_selected: "selectedCards alice = [mk_card Clubs 5 True, mk_card Diamonds 5 True]"
  by (simp add: alice_def)

lemma fives_counts: "counts_of [mk_card Clubs 5 True, mk_card Diamonds 5 True] = [2]"
  by (simp add: counts_of_def ranks_of_def sortedCards_of_def rankCounts_of_def mk_card_def)

lemma fives_valid: "validateHand (selectedCards alice) = Valid"
  by (simp add: alice_selected validateHand_def fives_counts elem_at_def)

lemma fives_flags:
  "\<not> isRoyal_of [mk_card Clubs 5 True, mk_card Diamonds 5 True]"
  "\<not> isFlush_of [mk_card Clubs 5 True, mk_card Diamonds 5 True]"
  "\<not> isStraight_of [mk_card Clubs 5 True, mk_card Diamonds 5 True]"
  "\<not> isLowStraight_of [mk_card Clubs 5 True, mk_card Diamonds 5 True]"
  by (simp_all add: isRoyal_of_def isFlush_of_def isStraight_of_def isLowStraight_of_def
      five_distinct_def)

lemma fives_face: "faceValueDamage [mk_card Clubs 5 True, mk_card Diamonds 5 True] = 10"
  by (simp add: faceValueDamage_def faceStep_def mk_card_def)

lemma fives_type: "handType_of [mk_card Clubs 5 True, mk_card Diamonds 5 True] = ''One Pair''"
  by (simp add: handType_of_def fives_flags fives_counts elem_at_def)

lemma fives_result:
  "htype (evaluateHand (selectedCards alice)) = ''One Pair''"
  "damage (evaluateHand (selectedCards alice)) = 15"
  unfolding evaluateHand_valid[OF fives_valid]
  by (simp_all add: alice_selected fives_type fives_face ranking_damage_def HAND_RANKINGS_def)

lemma duel_player_at [simp]:
  "player_at [alice, bob hp] 0 = Some alice"
  "player_at [alice, bob hp] 1 = Some (bob hp)"
  by (simp_all add: player_at_def)

lemma duel_findIndex [simp]:
  "findIndex (\<lambda>p. pid p = ''alice'') [alice, bob hp] = 0"
  "findIndex (\<lambda>p. pid p = ''bob'') [alice, bob hp] = 1"
  "findIndex (\<lambda>p. pid p = ''eve'') [alice, bob hp] = - 1"
  by simp_all

subsection \<open>The resolution of a validated hand\<close>

lemma playHand_valid:
  assumes "rooms s roomId = Some room" "sessions s sock = Some ses" "gameState room = Playing"
    and "findIndex (\<lambda>p. pid p = sock) (players room) = currentPlayer room"
    and "player_at (players room) (currentPlayer room) = Some cur"
    and "selectedCards cur \<noteq> []" "validateHand (selectedCards cur) = Valid"
    and "player_at (players room) (1 - currentPlayer room) = Some enemy"
  shows "playHand s sock roomId = playHand_resolve s roomId room (currentPlayer room) cur enemy"
  using assms by (simp add: playHand_def Let_def)

lemma buildArmor_valid:
  assumes "rooms s roomId = Some room" "sessions s sock = Some ses" "gameState room = Playing"
    and "gameMode room = TACTICAL"
    and "findIndex (\<lambda>p. pid p = sock) (players room) = currentPlayer room"
    and "player_at (players room) (currentPlayer room) = Some cur"
    and "selectedCards cur \<noteq> []" "validateHand (selectedCards cur) = Valid"
  shows "buildArmor s sock roomId = buildArmor_resolve s roomId room (currentPlayer room) cur"
  using assms by (simp add: buildArmor_def Let_def)

lemma player_at_set_player_same:
  "player_at (players r) i = Some p \<Longrightarrow> player_at (players (set_player r i q)) i = Some q"
  by (simp add: player_at_set_player)

lemma player_at_set_player_other:
  "player_at (players r) i = Some p \<Longrightarrow> j \<noteq> i \<Longrightarrow>
     player_at (players (set_player r i q)) j = player_at (players r) j"
  by (simp add: player_at_set_player)

lemma set_player_fields [simp]:
  "currentPlayer (set_player r i p) = currentPlayer r" "turn (set_player r i p) = turn r"
  "deck (set_player r i p) = deck r" "discardPile (set_player r i p) = discardPile r"
  "gameState (set_player r i p) = gameState r" "gameMode (set_player r i p) = gameMode r"
  "length (players (set_player r i p)) = length (players r)"
  by (simp_all add: set_player_def)

lemma switchTurns_fields [simp]:
  "currentPlayer (switchTurns r) = 1 - currentPlayer r" "turn (switchTurns r) = turn r + 1"
  "deck (switchTurns r) = deck r" "discardPile (switchTurns r) = discardPile r"
  "gameState (switchTurns r) = gameState r" "gameMode (switchTurns r) = gameMode r"
  "players (switchTurns r) = players r"
  by (simp_all add: switchTurns_def)

lemma playHand_resolve_final:
  assumes cp: "currentPlayer room = i"
    and cur: "player_at (players room) i = Some cur"
    and en: "player_at (players room) (1 - i) = Some enemy"
    and ck: "checkPrediction (gameMode room) (evaluateHand (selectedCards cur)) enemy = (d1, e1)"
    and aa: "applyArmor (gameMode room) d1 e1 = (fd, e2)"
    and rc: "recycle (gameMode room) (filter selected (hand cur)) (deck room)
               (discardPile room) (random s) = (deck1, pile1, rs1)"
    and e3: "e3 = e2\<lparr>health := max 0 (health e2 - fd)\<rparr>"
    and c1: "cur1 = cur\<lparr>hand := map clearFlags (take 8 deck1), selectedCards := []\<rparr>"
    and r1: "room1 = (set_player (set_player room (1 - i) e3) i cur1)
                \<lparr>deck := drop 8 deck1, discardPile := pile1,
                 lastPlayedHand := Some ((evaluateHand (selectedCards cur))\<lparr>damage := fd\<rparr>)\<rparr>"
  shows "thrown (playHand_resolve s roomId room i cur enemy) = None"
    and "final (playHand_resolve s roomId room i cur enemy) =
      (put_room s roomId
         (if health e3 \<le> 0 then room1\<lparr>gameState := Ended\<rparr>
          else set_player (switchTurns room1) (1 - i) (e3\<lparr>discardsUsed := 0\<rparr>)))
      \<lparr>random := rs1\<rparr>"
proof -
  have ne: "1 - i \<noteq> i" by arith
  have p1: "player_at (players (set_player room (1 - i) e3)) i = Some cur"
    using player_at_set_player_other[OF en, of i e3] cur ne by simp
  have p2: "player_at (players (set_player (set_player room (1 - i) e3) i cur1)) (1 - i) = Some e3"
    using player_at_set_player_other[OF p1, of "1 - i" cur1]
      player_at_set_player_same[OF en, of e3] ne by simp
  have cp1: "currentPlayer room1 = i" by (simp add: r1 cp)
  have pl1: "players room1 = players (set_player (set_player room (1 - i) e3) i cur1)"
    by (simp add: r1)
  have p3: "player_at (players (switchTurns room1)) (currentPlayer (switchTurns room1)) = Some e3"
    using p2 by (simp add: cp1 pl1)
  have rd: "resetDiscards (switchTurns room1) =
      Some (set_player (switchTurns room1) (1 - i) (e3\<lparr>discardsUsed := 0\<rparr>))"
    unfolding resetDiscards_def p3 by (simp add: cp1)
  have out: "playHand_resolve s roomId room i cur enemy =
      (if health e3 \<le> 0 then
         emits ((put_room s roomId (room1\<lparr>gameState := Ended\<rparr>))\<lparr>random := rs1\<rparr>)
           [(ToRoom roomId, GameEnded cur1 ((evaluateHand (selectedCards cur))\<lparr>damage := fd\<rparr>))]
       else
         (case resetDiscards (switchTurns room1) of
            None \<Rightarrow> throws ((put_room s roomId (switchTurns room1))\<lparr>random := rs1\<rparr>)
          | Some room2 \<Rightarrow>
              emits ((put_room s roomId room2)\<lparr>random := rs1\<rparr>)
                [(ToRoom roomId,
                  HandPlayed i ((evaluateHand (selectedCards cur))\<lparr>damage := fd\<rparr>)
                    (currentPlayer room2) (turn room2)
                    (views (gameMode room = TACTICAL) (gameMode room = TACTICAL)
                       i (players room2)))]))"
    by (simp only: playHand_resolve_def Let_def ck aa rc prod.case e3 c1 r1)
  show "thrown (playHand_resolve s roomId room i cur enemy) = None"
    unfolding out rd by simp
  show "final (playHand_resolve s roomId room i cur enemy) =
      (put_room s roomId
         (if health e3 \<le> 0 then room1\<lparr>gameState := Ended\<rparr>
          else set_player (switchTurns room1) (1 - i) (e3\<lparr>discardsUsed := 0\<rparr>)))
      \<lparr>random := rs1\<rparr>"
    unfolding out rd by simp
qed

lemma buildArmor_resolve_final:
  assumes cp: "currentPlayer room = i"
    and cur: "player_at (players room) i = Some cur"
    and en: "player_at (players room) (1 - i) = Some enemy"
    and rc: "recycle (gameMode room) (filter selected (hand cur)) (deck room)
               (discardPile room) (random s) = (deck1, pile1, rs1)"
    and c1: "cur1 = cur\<lparr>armor := min 50 (armor cur
                        + armorGained_of (htype (evaluateHand (selectedCards cur)))),
                      hand := map clearFlags (take 8 deck1), selectedCards := []\<rparr>"
    and r1: "room1 = (set_player room i cur1)\<lparr>deck := drop 8 deck1, discardPile := pile1\<rparr>"
  shows "thrown (buildArmor_resolve s roomId room i cur) = None"
    and "final (buildArmor_resolve s roomId room i cur) =
      (put_room s roomId (set_player (switchTurns room1) (1 - i) (enemy\<lparr>discardsUsed := 0\<rparr>)))
      \<lparr>random := rs1\<rparr>"
proof -
  have ne: "1 - i \<noteq> i" by arith
  have p2: "player_at (players room1) (1 - i) = Some enemy"
    using player_at_set_player_other[OF cur, of "1 - i" cur1] en ne by (simp add: r1)
  have cp1: "currentPlayer room1 = i" by (simp add: r1 cp)
  have p3: "player_at (players (switchTurns room1)) (currentPlayer (switchTurns room1)) = Some enemy"
    using p2 by (simp add: cp1)
  have rd: "resetDiscards (switchTurns room1) =
      Some (set_player (switchTurns room1) (1 - i) (enemy\<lparr>discardsUsed := 0\<rparr>))"
    unfolding resetDiscards_def p3 by (simp add: cp1)
  have out: "buildArmor_resolve s roomId room i cur =
      (case resetDiscards (switchTurns room1) of
         None \<Rightarrow> throws ((put_room s roomId (switchTurns room1))\<lparr>random := rs1\<rparr>)
       | Some room2 \<Rightarrow>
           emits ((put_room s roomId room2)\<lparr>random := rs1\<rparr>)
             [(ToRoom roomId,
               ArmorBuilt i
                 (min 50 (armor cur + armorGained_of (htype (evaluateHand (selectedCards cur))))
                  - armor cur)
                 (evaluateHand (selectedCards cur))
                 (currentPlayer room2) (turn room2)
                 (views True True i (players room2)))])"
    by (simp only: buildArmor_resolve_def Let_def rc prod.case c1 r1)
  show "thrown (buildArmor_resolve s roomId room i cur) = None"
    unfolding out rd by simp
  show "final (buildArmor_resolve s roomId room i cur) =
      (put_room s roomId (set_player (switchTurns room1) (1 - i) (enemy\<lparr>discardsUsed := 0\<rparr>)))
      \<lparr>random := rs1\<rparr>"
    unfolding out rd by simp
qed

lemma both_players_index:
  assumes "player_at ps i = Some a" "player_at ps (1 - i) = Some b"
  shows "i = 0 \<or> i = 1"
  using assms by (auto simp: player_at_def split: if_splits)

lemma toggles_keep_turn:
  assumes "rooms s roomId = Some room"
  shows "\<exists>room'. rooms (final (selectCard s sock roomId cardId)) roomId = Some room' \<and>
           currentPlayer room' = currentPlayer room \<and> turn room' = turn room \<and>
           gameState room' = gameState room"
    and "\<exists>room'. rooms (final (markForDiscard s sock roomId cardId)) roomId = Some room' \<and>
           currentPlayer room' = currentPlayer room \<and> turn room' = turn room \<and>
           gameState room' = gameState room"
    and "\<exists>room'. rooms (final (discardCards s sock roomId)) roomId = Some room' \<and>
           currentPlayer room' = currentPlayer room \<and> turn room' = turn room \<and>
           gameState room' = gameState room"
  using assms
  by (auto simp: selectCard_def markForDiscard_def discardCards_def Let_def
      split: option.splits)

lemma playHand_turn:
  assumes room: "rooms s roomId = Some room" and ses: "sessions s sock = Some ses"
    and st: "gameState room = Playing"
    and turn: "findIndex (\<lambda>p. pid p = sock) (players room) = currentPlayer room"
    and cur: "player_at (players room) (currentPlayer room) = Some cur"
    and sel: "selectedCards cur \<noteq> []" and valid: "validateHand (selectedCards cur) = Valid"
    and en: "player_at (players room) (1 - currentPlayer room) = Some enemy"
  shows "\<exists>room' enemy'.
           rooms (final (playHand s sock roomId)) roomId = Some room' \<and>
           thrown (playHand s sock roomId) = None \<and>
           player_at (players room') (1 - currentPlayer room) = Some enemy' \<and>
           (if health enemy' \<le> 0
            then gameState room' = Ended \<and> currentPlayer room' = currentPlayer room \<and>
                 turn room' = turn room
            else gameState room' = Playing \<and> currentPlayer room' = 1 - currentPlayer room \<and>
                 turn room' = turn room + 1)"
proof -
  let ?hr = "evaluateHand (selectedCards cur)"
  let ?i = "currentPlayer room"
  obtain d1 e1 where ck: "checkPrediction (gameMode room) ?hr enemy = (d1, e1)"
    by (cases "checkPrediction (gameMode room) ?hr enemy") auto
  obtain fd e2 where aa: "applyArmor (gameMode room) d1 e1 = (fd, e2)"
    by (cases "applyArmor (gameMode room) d1 e1") auto
  obtain deck1 pile1 rs1 where rc: "recycle (gameMode room) (filter selected (hand cur))
      (deck room) (discardPile room) (random s) = (deck1, pile1, rs1)"
    by (cases "recycle (gameMode room) (filter selected (hand cur))
      (deck room) (discardPile room) (random s)") auto
  define e3 where "e3 = e2\<lparr>health := max 0 (health e2 - fd)\<rparr>"
  define cur1 where "cur1 = cur\<lparr>hand := map clearFlags (take 8 deck1), selectedCards := []\<rparr>"
  define room1 where "room1 = (set_player (set_player room (1 - ?i) e3) ?i cur1)
                \<lparr>deck := drop 8 deck1, discardPile := pile1,
                 lastPlayedHand := Some (?hr\<lparr>damage := fd\<rparr>)\<rparr>"
  note fin = playHand_resolve_final[OF refl cur en ck aa rc e3_def cur1_def room1_def, of roomId]
  have ph: "playHand s sock roomId = playHand_resolve s roomId room ?i cur enemy"
    by (rule playHand_valid[OF room ses st turn cur sel valid en])
  have ne: "1 - ?i \<noteq> ?i" by arith
  have p1: "player_at (players (set_player room (1 - ?i) e3)) ?i = Some cur"
    using player_at_set_player_other[OF en, of ?i e3] cur ne by simp
  have p2: "player_at (players room1) (1 - ?i) = Some e3"
    using player_at_set_player_other[OF p1, of "1 - ?i" cur1]
      player_at_set_player_same[OF en, of e3] ne by (simp add: room1_def)
  have p3: "player_at (players (set_player (switchTurns room1) (1 - ?i) (e3\<lparr>discardsUsed := 0\<rparr>)))
      (1 - ?i) = Some (e3\<lparr>discardsUsed := 0\<rparr>)"
    by (rule player_at_set_player_same[of _ _ e3]) (simp add: p2)
  have f1: "currentPlayer room1 = ?i" "turn room1 = turn room" "gameState room1 = gameState room"
    by (simp_all add: room1_def)
  show ?thesis
  proof (cases "health e3 \<le> 0")
    case True
    have "rooms (final (playHand s sock roomId)) roomId = Some (room1\<lparr>gameState := Ended\<rparr>)"
      unfolding ph fin(2) using True by (simp add: put_room_def)
    moreover have "player_at (players (room1\<lparr>gameState := Ended\<rparr>)) (1 - ?i) = Some e3"
      using p2 by simp
    ultimately show ?thesis
      using fin(1) True f1 unfolding ph
      by (intro exI[of _ "room1\<lparr>gameState := Ended\<rparr>"] exI[of _ e3]) simp
  next
    case False
    have "rooms (final (playHand s sock roomId)) roomId
        = Some (set_player (switchTurns room1) (1 - ?i) (e3\<lparr>discardsUsed := 0\<rparr>))"
      unfolding ph fin(2) using False by (simp add: put_room_def)
    then show ?thesis
      using fin(1) False p3 f1 st unfolding ph
      by (intro exI[of _ "set_player (switchTurns room1) (1 - ?i) (e3\<lparr>discardsUsed := 0\<rparr>)"]
            exI[of _ "e3\<lparr>discardsUsed := 0\<rparr>"]) simp
  qed
qed

lemma buildArmor_turn:
  assumes room: "rooms s roomId = Some room" and ses: "sessions s sock = Some ses"
    and st: "gameState room = Playing" and mode: "gameMode room = TACTICAL"
    and turn: "findIndex (\<lambda>p. pid p = sock) (players room) = currentPlayer room"
    and cur: "player_at (players room) (currentPlayer room) = Some cur"
    and sel: "selectedCards cur \<noteq> []" and valid: "validateHand (selectedCards cur) = Valid"
    and en: "player_at (players room) (1 - currentPlayer room) = Some enemy"
  shows "\<exists>room'.
           rooms (final (buildArmor s sock roomId)) roomId = Some room' \<and>
           thrown (buildArmor s sock roomId) = None \<and>
           gameState room' = Playing \<and> currentPlayer room' = 1 - currentPlayer room \<and>
           turn room' = turn room + 1"
proof -
  let ?i = "currentPlayer room"
  obtain deck1 pile1 rs1 where rc: "recycle (gameMode room) (filter selected (hand cur))
      (deck room) (discardPile room) (random s) = (deck1, pile1, rs1)"
    by (cases "recycle (gameMode room) (filter selected (hand cur))
      (deck room) (discardPile room) (random s)") auto
  note fin = buildArmor_resolve_final[OF refl cur en rc refl refl, of roomId]
  have ba: "buildArmor s sock roomId = buildArmor_resolve s roomId room ?i cur"
    by (rule buildArmor_valid[OF room ses st mode turn cur sel valid])
  show ?thesis
    unfolding ba fin using st by (simp add: put_room_def)
qed

subsection \<open>Plays in the example room\<close>

lemma bob_fields [simp]:
  "health (bob hp) = hp" "armor (bob hp) = 10" "prediction (bob hp) = None"
  by (simp_all add: bob_def)

lemma alice_has_selection: "selectedCards alice \<noteq> []"
  by (simp add: alice_selected)

lemma duel_play:
  "playHand (duel_server mode Playing hp) ''alice'' ''room-1''
     = playHand_resolve (duel_server mode Playing hp) ''room-1'' (duel mode Playing hp) 0
         alice (bob hp)"
  using playHand_valid[OF duel_room duel_sessions(1), of mode Playing hp alice "bob hp"]
  by (simp add: fives_valid alice_has_selection)

lemma duel_tactical_health:
  "map_option (map health)
     (map_option players
        (rooms (final (playHand (duel_server TACTICAL Playing 100) ''alice'' ''room-1'')) ''room-1''))
     = Some [100, 95]"
  unfolding duel_play
  by (simp add: playHand_resolve_def Let_def checkPrediction_def applyArmor_def truthy_def
      recycle_def fives_result set_player_def put_room_def resetDiscards_def switchTurns_def
      player_at_def)
     (simp add: alice_def)

lemma health_at:
  assumes "map health ps = hs" "player_at ps i = Some e"
  shows "health e = hs ! nat i"
  using assms by (auto simp: player_at_def split: if_splits)

subsection \<open>Shuffling and the cards of a play\<close>

lemma random_below_less: "0 < n \<Longrightarrow> fst (random_below n rs) < n"
  by (simp add: random_below_def random_raw_def split: list.splits)

lemma shuffle_from_props:
  "i < length xs \<Longrightarrow>
     mset (fst (shuffle_from i xs rs)) = mset xs \<and> length (fst (shuffle_from i xs rs)) = length xs"
proof (induction i arbitrary: xs rs)
  case 0
  then show ?case by simp
next
  case (Suc i)
  obtain j rs' where rb: "random_below (Suc i + 1) rs = (j, rs')"
    by (cases "random_below (Suc i + 1) rs") auto
  have "fst (random_below (Suc i + 1) rs) < Suc i + 1" by (rule random_below_less) simp
  with rb have j: "j < length xs" using Suc.prems by simp
  let ?ys = "xs[Suc i := xs ! j, j := xs ! Suc i]"
  have len: "length ?ys = length xs" by simp
  have ms: "mset ?ys = mset xs" using mset_swap[OF j Suc.prems] by simp
  have "i < length ?ys" using Suc.prems by simp
  from Suc.IH[OF this, of rs'] show ?case
    using rb ms len by simp
qed

lemma shuffle_mset: "mset (fst (shuffle xs rs)) = mset xs"
proof (cases xs)
  case Nil
  then show ?thesis by (simp add: shuffle_def)
next
  case (Cons x xs')
  then have "length xs - 1 < length xs" by simp
  from shuffle_from_props[OF this] show ?thesis by (simp add: shuffle_def)
qed

lemma shuffle_length: "length (fst (shuffle xs rs)) = length xs"
  using shuffle_mset[of xs rs] by (metis size_mset)

lemma recycle_recycling:
  "recycle RECYCLING played dk pile rs =
     (if length dk < 8 \<and> pile @ map clearFlags played \<noteq> []
      then (dk @ fst (shuffle (pile @ map clearFlags played) rs), [],
            snd (shuffle (pile @ map clearFlags played) rs))
      else (dk, pile @ map clearFlags played, rs))"
  by (auto simp: recycle_def Let_def split: prod.splits)

lemma recycle_other: "mode \<noteq> RECYCLING \<Longrightarrow> recycle mode played dk pile rs = (dk, pile, rs)"
  by (simp add: recycle_def)

lemma hands_set_player:
  "map hand (players (set_player r j q)) = (map hand (players r))[nat j := hand q]"
  by (simp add: set_player_def map_update)

lemma hands_set_player_same:
  assumes "player_at (players r) j = Some p" "hand q = hand p"
  shows "map hand (players (set_player r j q)) = map hand (players r)"
proof -
  from assms(1) have "nat j < length (players r)" "players r ! nat j = p"
    by (auto simp: player_at_def split: if_splits)
  then have "(map hand (players r))[nat j := hand p] = map hand (players r)"
    by (metis list_update_id map_update)
  then show ?thesis by (simp add: hands_set_player assms(2))
qed

lemma checkPrediction_hand: "checkPrediction mode hr e = (d, e') \<Longrightarrow> hand e' = hand e"
  by (auto simp: checkPrediction_def split: if_splits)

lemma applyArmor_hand: "applyArmor mode d e = (d', e') \<Longrightarrow> hand e' = hand e"
  by (auto simp: applyArmor_def Let_def split: if_splits)

lemma playHand_cards:
  assumes room: "rooms s roomId = Some room" and ses: "sessions s sock = Some ses"
    and st: "gameState room = Playing"
    and turn: "findIndex (\<lambda>p. pid p = sock) (players room) = currentPlayer room"
    and cur: "player_at (players room) (currentPlayer room) = Some cur"
    and sel: "selectedCards cur \<noteq> []" and valid: "validateHand (selectedCards cur) = Valid"
    and en: "player_at (players room) (1 - currentPlayer room) = Some enemy"
    and rc: "recycle (gameMode room) (filter selected (hand cur)) (deck room)
               (discardPile room) (random s) = (deck1, pile1, rs1)"
  shows "\<exists>room'.
           rooms (final (playHand s sock roomId)) roomId = Some room' \<and>
           thrown (playHand s sock roomId) = None \<and>
           random (final (playHand s sock roomId)) = rs1 \<and>
           deck room' = drop 8 deck1 \<and> discardPile room' = pile1 \<and>
           map hand (players room')
             = (map hand (players room))[nat (currentPlayer room) := map clearFlags (take 8 deck1)]"
proof -
  let ?hr = "evaluateHand (selectedCards cur)"
  let ?i = "currentPlayer room"
  obtain d1 e1 where ck: "checkPrediction (gameMode room) ?hr enemy = (d1, e1)"
    by (cases "checkPrediction (gameMode room) ?hr enemy") auto
  obtain fd e2 where aa: "applyArmor (gameMode room) d1 e1 = (fd, e2)"
    by (cases "applyArmor (gameMode room) d1 e1") auto
  define e3 where "e3 = e2\<lparr>health := max 0 (health e2 - fd)\<rparr>"
  define cur1 where "cur1 = cur\<lparr>hand := map clearFlags (take 8 deck1), selectedCards := []\<rparr>"
  define room1 where "room1 = (set_player (set_player room (1 - ?i) e3) ?i cur1)
                \<lparr>deck := drop 8 deck1, discardPile := pile1,
                 lastPlayedHand := Some (?hr\<lparr>damage := fd\<rparr>)\<rparr>"
  note fin = playHand_resolve_final[OF refl cur en ck aa rc e3_def cur1_def room1_def, of roomId]
  have ph: "playHand s sock roomId = playHand_resolve s roomId room ?i cur enemy"
    by (rule playHand_valid[OF room ses st turn cur sel valid en])
  have he: "hand e3 = hand enemy"
    using checkPrediction_hand[OF ck] applyArmor_hand[OF aa] by (simp add: e3_def)
  have h0: "map hand (players (set_player room (1 - ?i) e3)) = map hand (players room)"
    by (rule hands_set_player_same[OF en he])
  have "map hand (players room1)
      = map hand (players (set_player (set_player room (1 - ?i) e3) ?i cur1))"
    by (simp add: room1_def)
  also have "\<dots> = (map hand (players (set_player room (1 - ?i) e3)))[nat ?i := hand cur1]"
    by (rule hands_set_player)
  also have "\<dots> = (map hand (players room))[nat ?i := map clearFlags (take 8 deck1)]"
    unfolding h0 by (simp add: cur1_def)
  finally have h1: "map hand (players room1)
      = (map hand (players room))[nat ?i := map clearFlags (take 8 deck1)]" .
  have ne: "1 - ?i \<noteq> ?i" by arith
  have p1: "player_at (players (set_player room (1 - ?i) e3)) ?i = Some cur"
    using player_at_set_player_other[OF en, of ?i e3] cur ne by simp
  have p2: "player_at (players room1) (1 - ?i) = Some e3"
    using player_at_set_player_other[OF p1, of "1 - ?i" cur1]
      player_at_set_player_same[OF en, of e3] ne by (simp add: room1_def)
  have p2': "player_at (players (switchTurns room1)) (1 - ?i) = Some e3"
    using p2 by simp
  have h2: "map hand (players (set_player (switchTurns room1) (1 - ?i) (e3\<lparr>discardsUsed := 0\<rparr>)))
      = map hand (players room1)"
    using hands_set_player_same[OF p2', of "e3\<lparr>discardsUsed := 0\<rparr>"] by simp
  have f1: "deck room1 = drop 8 deck1" "discardPile room1 = pile1"
    by (simp_all add: room1_def)
  show ?thesis
  proof (cases "health e3 \<le> 0")
    case True
    have "rooms (final (playHand s sock roomId)) roomId = Some (room1\<lparr>gameState := Ended\<rparr>)"
      unfolding ph fin(2) using True by (simp add: put_room_def)
    then show ?thesis
      using fin(1) h1 f1 unfolding ph fin(2)
      by (intro exI[of _ "room1\<lparr>gameState := Ended\<rparr>"]) simp
  next
    case False
    have "rooms (final (playHand s sock roomId)) roomId
        = Some (set_player (switchTurns room1) (1 - ?i) (e3\<lparr>discardsUsed := 0\<rparr>))"
      unfolding ph fin(2) using False by (simp add: put_room_def)
    then show ?thesis
      using fin(1) h1 h2 f1 unfolding ph fin(2)
      by (intro exI[of _ "set_player (switchTurns room1) (1 - ?i) (e3\<lparr>discardsUsed := 0\<rparr>)"])
         simp
  qed
qed

lemma duel_recycling_pile:
  "discardPile (duel RECYCLING Playing 100) @ map clearFlags (filter selected (hand alice))
     = [mk_card Spades 2 False, mk_card Spades 3 False, mk_card Clubs 6 False,
        mk_card Diamonds 9 False, mk_card Hearts 13 False, mk_card Clubs 5 False,
        mk_card Diamonds 5 False]"
  by (simp add: duel_def alice_def clearFlags_def mk_card_def)

lemma duel_shuffle:
  "shuffle [mk_card Spades 2 False, mk_card Spades 3 False, mk_card Clubs 6 False,
        mk_card Diamonds 9 False, mk_card Hearts 13 False, mk_card Clubs 5 False,
        mk_card Diamonds 5 False] [3, 7, 4, 5, 5, 9, 2, 6]
     = ([mk_card Spades 2 False, mk_card Diamonds 5 False, mk_card Clubs 6 False,
         mk_card Clubs 5 False, mk_card Hearts 13 False, mk_card Spades 3 False,
         mk_card Diamonds 9 False], [2, 6])"
  by code_simp

lemma duel_deck_random [simp]:
  "deck (duel mode st hp) = [mk_card Clubs 1 False, mk_card Diamonds 12 False,
     mk_card Spades 4 False, mk_card Hearts 7 False]"
  "random (duel_server mode st hp) = [3, 7, 4, 5, 5, 9, 2, 6]"
  by (simp_all add: duel_def duel_server_def)

lemma mk_card_clear [simp]: "clearFlags (mk_card su r b) = mk_card su r False"
  by (simp add: clearFlags_def mk_card_def)

lemma mk_card_cid [simp]: "cid (mk_card su r b) = CardId su r 0"
  by (simp add: mk_card_def)

subsection \<open>Where the cards of a room go\<close>

lemma ids_simps [simp]:
  "ids [] = {#}" "ids (xs @ ys) = ids xs + ids ys" "ids (map clearFlags xs) = ids xs"
  "ids (take n xs) + ids (drop n xs) = ids xs"
proof -
  show "ids [] = {#}" by (simp add: ids_def)
  show "ids (xs @ ys) = ids xs + ids ys" by (simp add: ids_def)
  show "ids (map clearFlags xs) = ids xs"
    by (induction xs) (simp_all add: ids_def clearFlags_def)
  have "ids (take n xs) + ids (drop n xs) = ids (take n xs @ drop n xs)"
    by (simp only: ids_def map_append mset_append)
  then show "ids (take n xs) + ids (drop n xs) = ids xs" by simp
qed

lemma ids_filter: "ids (filter P xs) + ids (filter (\<lambda>c. \<not> P c) xs) = ids xs"
  by (induction xs) (simp_all add: ids_def)

lemma ids_shuffle: "ids (fst (shuffle xs rs)) = ids xs"
proof -
  have "mset (map cid (fst (shuffle xs rs))) = image_mset cid (mset (fst (shuffle xs rs)))"
    by simp
  also have "\<dots> = image_mset cid (mset xs)" by (simp only: shuffle_mset)
  finally show ?thesis by (simp add: ids_def)
qed

lemma card_ids_alt:
  "card_ids r = (\<Sum>h\<leftarrow>map hand (players r). ids h) + ids (deck r) + ids (discardPile r)"
proof -
  have "mset (map cid (concat hs)) = (\<Sum>h\<leftarrow>hs. ids h)" for hs
    by (induction hs) (simp_all add: ids_def)
  then show ?thesis by (simp add: card_ids_def all_cards_def ids_def)
qed

lemma hands_update:
  "i < length hs \<Longrightarrow> (\<Sum>h\<leftarrow>hs[i := h']. ids h) + ids (hs ! i) = (\<Sum>h\<leftarrow>hs. ids h) + ids h'"
proof (induction hs arbitrary: i)
  case Nil
  then show ?case by simp
next
  case (Cons a hs)
  show ?case
  proof (cases i)
    case 0
    then show ?thesis by simp
  next
    case (Suc k)
    with Cons.prems have "k < length hs" by simp
    from Cons.IH[OF this] show ?thesis using Suc by (simp add: ac_simps)
  qed
qed

lemma card_ids_hands:
  assumes p: "player_at (players r) i = Some p"
    and h: "map hand (players r') = (map hand (players r))[nat i := h']"
  shows "card_ids r' + ids (hand p) + ids (deck r) + ids (discardPile r)
           = card_ids r + ids h' + ids (deck r') + ids (discardPile r')"
proof -
  from p have i: "nat i < length (map hand (players r))" "map hand (players r) ! nat i = hand p"
    by (auto simp: player_at_def split: if_splits)
  from hands_update[OF i(1), of h'] i(2)
  have "(\<Sum>h\<leftarrow>(map hand (players r))[nat i := h']. ids h) + ids (hand p)
      = (\<Sum>h\<leftarrow>map hand (players r). ids h) + ids h'" by simp
  then show ?thesis unfolding card_ids_alt h by (simp add: ac_simps)
qed

lemma recycle_ids:
  assumes "recycle mode played dk pile rs = (deck1, pile1, rs1)"
  shows "ids deck1 + ids pile1
           = ids dk + ids pile + (if mode = RECYCLING then ids played else {#})"
proof (cases "mode = RECYCLING")
  case True
  with assms show ?thesis
    unfolding True recycle_recycling
    by (auto simp: ids_shuffle split: if_splits)
next
  case False
  with assms show ?thesis by (simp add: recycle_other)
qed

lemma playHand_paths:
  assumes "rooms s roomId = Some room"
  shows "final (playHand s sock roomId) = s \<or>
     (\<exists>ses cur enemy. sessions s sock = Some ses \<and> gameState room = Playing \<and>
        findIndex (\<lambda>p. pid p = sock) (players room) = currentPlayer room \<and>
        player_at (players room) (currentPlayer room) = Some cur \<and>
        selectedCards cur \<noteq> [] \<and> validateHand (selectedCards cur) = Valid \<and>
        player_at (players room) (1 - currentPlayer room) = Some enemy)"
  using assms
  by (auto simp: playHand_def Let_def split: option.splits validation.splits)

lemma buildArmor_paths:
  assumes "rooms s roomId = Some room"
  shows "final (buildArmor s sock roomId) = s \<or>
     (\<exists>ses cur. sessions s sock = Some ses \<and> gameState room = Playing \<and>
        gameMode room = TACTICAL \<and>
        findIndex (\<lambda>p. pid p = sock) (players room) = currentPlayer room \<and>
        player_at (players room) (currentPlayer room) = Some cur \<and>
        selectedCards cur \<noteq> [] \<and> validateHand (selectedCards cur) = Valid)"
  using assms
  by (auto simp: buildArmor_def Let_def split: option.splits validation.splits)

lemma resetDiscards_hands:
  "resetDiscards r = Some r' \<Longrightarrow>
     map hand (players r') = map hand (players r) \<and> deck r' = deck r \<and>
     discardPile r' = discardPile r"
proof -
  assume a: "resetDiscards r = Some r'"
  then obtain p where p: "player_at (players r) (currentPlayer r) = Some p"
    and r': "r' = set_player r (currentPlayer r) (p\<lparr>discardsUsed := 0\<rparr>)"
    by (auto simp: resetDiscards_def split: option.splits)
  from hands_set_player_same[OF p, of "p\<lparr>discardsUsed := 0\<rparr>"] show ?thesis
    by (simp add: r')
qed

lemma buildArmor_cards:
  assumes room: "rooms s roomId = Some room" and ses: "sessions s sock = Some ses"
    and st: "gameState room = Playing" and mode: "gameMode room = TACTICAL"
    and turn: "findIndex (\<lambda>p. pid p = sock) (players room) = currentPlayer room"
    and cur: "player_at (players room) (currentPlayer room) = Some cur"
    and sel: "selectedCards cur \<noteq> []" and valid: "validateHand (selectedCards cur) = Valid"
    and rc: "recycle (gameMode room) (filter selected (hand cur)) (deck room)
               (discardPile room) (random s) = (deck1, pile1, rs1)"
  shows "\<exists>room'.
           rooms (final (buildArmor s sock roomId)) roomId = Some room' \<and>
           deck room' = drop 8 deck1 \<and> discardPile room' = pile1 \<and>
           map hand (players room')
             = (map hand (players room))[nat (currentPlayer room) := map clearFlags (take 8 deck1)]"
proof -
  let ?i = "currentPlayer room"
  define cur1 where "cur1 = cur\<lparr>armor := min 50 (armor cur
                        + armorGained_of (htype (evaluateHand (selectedCards cur)))),
                      hand := map clearFlags (take 8 deck1), selectedCards := []\<rparr>"
  define room1 where
    "room1 = (set_player room ?i cur1)\<lparr>deck := drop 8 deck1, discardPile := pile1\<rparr>"
  have ba: "buildArmor s sock roomId = buildArmor_resolve s roomId room ?i cur"
    by (rule buildArmor_valid[OF room ses st mode turn cur sel valid])
  have out: "buildArmor_resolve s roomId room ?i cur =
      (case resetDiscards (switchTurns room1) of
         None \<Rightarrow> throws ((put_room s roomId (switchTurns room1))\<lparr>random := rs1\<rparr>)
       | Some room2 \<Rightarrow>
           emits ((put_room s roomId room2)\<lparr>random := rs1\<rparr>)
             [(ToRoom roomId,
               ArmorBuilt ?i
                 (min 50 (armor cur + armorGained_of (htype (evaluateHand (selectedCards cur))))
                  - armor cur)
                 (evaluateHand (selectedCards cur))
                 (currentPlayer room2) (turn room2)
                 (views True True ?i (players room2)))])"
    by (simp only: buildArmor_resolve_def Let_def rc prod.case cur1_def room1_def)
  have h1: "map hand (players (switchTurns room1))
      = (map hand (players room))[nat ?i := map clearFlags (take 8 deck1)]"
    by (simp add: room1_def hands_set_player cur1_def)
  have f1: "deck (switchTurns room1) = drop 8 deck1" "discardPile (switchTurns room1) = pile1"
    by (simp_all add: room1_def)
  show ?thesis
  proof (cases "resetDiscards (switchTurns room1)")
    case None
    then show ?thesis unfolding ba out using h1 f1
      by (intro exI[of _ "switchTurns room1"]) (simp add: put_room_def)
  next
    case (Some room2)
    from resetDiscards_hands[OF Some] show ?thesis unfolding ba out Some using h1 f1
      by (intro exI[of _ room2]) (simp add: put_room_def)
  qed
qed

lemma playHand_ids:
  assumes room: "rooms s roomId = Some room" and ses: "sessions s sock = Some ses"
    and st: "gameState room = Playing"
    and turn: "findIndex (\<lambda>p. pid p = sock) (players room) = currentPlayer room"
    and cur: "player_at (players room) (currentPlayer room) = Some cur"
    and sel: "selectedCards cur \<noteq> []" and valid: "validateHand (selectedCards cur) = Valid"
    and en: "player_at (players room) (1 - currentPlayer room) = Some enemy"
  shows "\<exists>room'.
           rooms (final (playHand s sock roomId)) roomId = Some room' \<and>
           card_ids room'
             + ids (if gameMode room = RECYCLING then filter (\<lambda>c. \<not> selected c) (hand cur)
                    else hand cur)
           = card_ids room"
proof -
  obtain deck1 pile1 rs1 where rc: "recycle (gameMode room) (filter selected (hand cur))
      (deck room) (discardPile room) (random s) = (deck1, pile1, rs1)"
    by (cases "recycle (gameMode room) (filter selected (hand cur))
      (deck room) (discardPile room) (random s)") auto
  from playHand_cards[OF room ses st turn cur sel valid en rc] obtain room' where
    r: "rooms (final (playHand s sock roomId)) roomId = Some room'"
    and d: "deck room' = drop 8 deck1" and p: "discardPile room' = pile1"
    and h: "map hand (players room')
             = (map hand (players room))[nat (currentPlayer room) := map clearFlags (take 8 deck1)]"
    by blast
  from card_ids_hands[OF cur h]
  have "card_ids room' + ids (hand cur) + ids (deck room) + ids (discardPile room)
      = card_ids room + (ids (take 8 deck1) + ids (drop 8 deck1)) + ids pile1"
    unfolding d p by (simp add: ac_simps)
  also have "\<dots> = card_ids room + (ids deck1 + ids pile1)"
    by (simp only: ids_simps(4) add.assoc)
  also have "\<dots> = card_ids room + (ids (deck room) + ids (discardPile room)
      + (if gameMode room = RECYCLING then ids (filter selected (hand cur)) else {#}))"
    by (simp only: recycle_ids[OF rc])
  finally have e: "card_ids room' + ids (hand cur)
      = card_ids room + (if gameMode room = RECYCLING then ids (filter selected (hand cur)) else {#})"
    by (simp add: ac_simps)
  have "card_ids room'
             + ids (if gameMode room = RECYCLING then filter (\<lambda>c. \<not> selected c) (hand cur)
                    else hand cur) = card_ids room"
  proof (cases "gameMode room = RECYCLING")
    case True
    from e True have "card_ids room' + ids (hand cur)
      = card_ids room + ids (filter selected (hand cur))" by simp
    then have "card_ids room' + (ids (filter selected (hand cur))
        + ids (filter (\<lambda>c. \<not> selected c) (hand cur)))
      = card_ids room + ids (filter selected (hand cur))"
      by (simp only: ids_filter)
    then show ?thesis using True by (simp add: ac_simps)
  next
    case False
    with e show ?thesis by simp
  qed
  with r show ?thesis by blast
qed

lemma buildArmor_ids:
  assumes room: "rooms s roomId = Some room" and ses: "sessions s sock = Some ses"
    and st: "gameState room = Playing" and mode: "gameMode room = TACTICAL"
    and turn: "findIndex (\<lambda>p. pid p = sock) (players room) = currentPlayer room"
    and cur: "player_at (players room) (currentPlayer room) = Some cur"
    and sel: "selectedCards cur \<noteq> []" and valid: "validateHand (selectedCards cur) = Valid"
  shows "\<exists>room'.
           rooms (final (buildArmor s sock roomId)) roomId = Some room' \<and>
           card_ids room' + ids (hand cur) = card_ids room"
proof -
  have nr: "gameMode room \<noteq> RECYCLING" using mode by simp
  have rc: "recycle (gameMode room) (filter selected (hand cur))
      (deck room) (discardPile room) (random s) = (deck room, discardPile room, random s)"
    by (rule recycle_other[OF nr])
  from buildArmor_cards[OF room ses st mode turn cur sel valid rc] obtain room' where
    r: "rooms (final (buildArmor s sock roomId)) roomId = Some room'"
    and d: "deck room' = drop 8 (deck room)" and p: "discardPile room' = discardPile room"
    and h: "map hand (players room')
             = (map hand (players room))[nat (currentPlayer room) := map clearFlags (take 8 (deck room))]"
    by blast
  from card_ids_hands[OF cur h]
  have "card_ids room' + ids (hand cur) + ids (deck room) + ids (discardPile room)
      = card_ids room + (ids (take 8 (deck room)) + ids (drop 8 (deck room))) + ids (discardPile room)"
    unfolding d p by (simp add: ac_simps)
  then have "card_ids room' + ids (hand cur) + ids (deck room) + ids (discardPile room)
      = card_ids room + ids (deck room) + ids (discardPile room)"
    by (simp only: ids_simps(4))
  then have "card_ids room' + ids (hand cur) = card_ids room" by simp
  with r show ?thesis by blast
qed

lemma update_first_cids:
  "(\<And>c. cid (f c) = cid c) \<Longrightarrow> map cid (update_first P f xs) = map cid xs"
  by (induction xs) auto

lemma card_ids_same_hands:
  assumes "map (map cid) (map hand (players r')) = map (map cid) (map hand (players r))"
    and "deck r' = deck r" "discardPile r' = discardPile r"
  shows "card_ids r' = card_ids r"
proof -
  have eq: "(\<Sum>h\<leftarrow>map hand ps. ids h) = (\<Sum>m\<leftarrow>map (map cid) (map hand ps). mset m)" for ps
    by (induction ps) (simp_all add: ids_def)
  show ?thesis unfolding card_ids_alt eq assms ..
qed

lemma toggle_ids:
  assumes p: "player_at (players r) i = Some p" and c: "map cid (hand q) = map cid (hand p)"
  shows "card_ids (set_player r i q) = card_ids r"
proof (rule card_ids_same_hands)
  from p have i: "nat i < length (players r)" "players r ! nat i = p"
    by (auto simp: player_at_def split: if_splits)
  have "map (map cid) (map hand (players (set_player r i q)))
      = (map (map cid) (map hand (players r)))[nat i := map cid (hand q)]"
    by (simp add: set_player_def map_update)
  also have "\<dots> = (map (map cid) (map hand (players r)))[nat i := map cid (hand p)]"
    by (simp only: c)
  also have "\<dots> = map (map cid) (map hand (players r))"
    using i by (metis list_update_id map_update)
  finally show "map (map cid) (map hand (players (set_player r i q)))
      = map (map cid) (map hand (players r))" .
qed simp_all

lemma selectCard_ids:
  assumes "rooms s roomId = Some room"
  shows "\<exists>room'. rooms (final (selectCard s sock roomId cardId)) roomId = Some room' \<and>
           card_ids room' = card_ids room"
proof (cases "final (selectCard s sock roomId cardId) = s")
  case True
  with assms show ?thesis by simp
next
  case False
  then obtain cur where cur: "player_at (players room) (currentPlayer room) = Some cur"
    and f: "final (selectCard s sock roomId cardId)
      = put_room s roomId (set_player room (currentPlayer room)
          (cur\<lparr>hand := update_first (\<lambda>c. cid c = cardId) (\<lambda>c. c\<lparr>selected := \<not> selected c\<rparr>)
                           (hand cur),
               selectedCards := filter selected
                 (update_first (\<lambda>c. cid c = cardId) (\<lambda>c. c\<lparr>selected := \<not> selected c\<rparr>)
                    (hand cur))\<rparr>))"
    using assms
    by (auto simp: selectCard_def Let_def split: option.splits if_splits)
  show ?thesis unfolding f
    using toggle_ids[OF cur] by (simp add: update_first_cids)
qed

lemma markForDiscard_ids:
  assumes "rooms s roomId = Some room"
  shows "\<exists>room'. rooms (final (markForDiscard s sock roomId cardId)) roomId = Some room' \<and>
           card_ids room' = card_ids room"
proof (cases "final (markForDiscard s sock roomId cardId) = s")
  case True
  with assms show ?thesis by simp
next
  case False
  then obtain cur where cur: "player_at (players room) (currentPlayer room) = Some cur"
    and f: "final (markForDiscard s sock roomId cardId)
      = put_room s roomId (set_player room (currentPlayer room)
          (cur\<lparr>hand := update_first (\<lambda>c. cid c = cardId)
                           (\<lambda>c. c\<lparr>markedForDiscard := \<not> markedForDiscard c\<rparr>) (hand cur)\<rparr>))"
    using assms
    by (auto simp: markForDiscard_def Let_def split: option.splits if_splits)
  show ?thesis unfolding f
    using toggle_ids[OF cur] by (simp add: update_first_cids)
qed

lemma discardCards_ids:
  assumes "rooms s roomId = Some room"
  shows "\<exists>room'. rooms (final (discardCards s sock roomId)) roomId = Some room' \<and>
           (card_ids room' = card_ids room \<or>
            (gameMode room \<noteq> RECYCLING \<and>
             (\<exists>cur. player_at (players room) (currentPlayer room) = Some cur \<and>
                card_ids room' + ids (filter markedForDiscard (hand cur)) = card_ids room)))"
proof (cases "final (discardCards s sock roomId) = s")
  case True
  with assms show ?thesis by simp
next
  case False
  let ?i = "currentPlayer room"
  from False obtain cur where cur: "player_at (players room) ?i = Some cur"
    and f: "final (discardCards s sock roomId)
      = put_room s roomId
          ((set_player room ?i
             (cur\<lparr>hand := filter (\<lambda>c. \<not> markedForDiscard c) (hand cur)
                        @ map clearFlags (take (length (filter markedForDiscard (hand cur)))
                            (deck room)),
                  discardsUsed := discardsUsed cur + 1\<rparr>))
           \<lparr>deck := drop (length (filter markedForDiscard (hand cur))) (deck room),
            discardPile := (if gameMode room = RECYCLING
                            then discardPile room
                                 @ map clearFlags (filter markedForDiscard (hand cur))
                            else discardPile room)\<rparr>)"
    using assms
    by (auto simp: discardCards_def Let_def split: option.splits if_splits)
  define n where "n = length (filter markedForDiscard (hand cur))"
  define room' where "room' = (set_player room ?i
             (cur\<lparr>hand := filter (\<lambda>c. \<not> markedForDiscard c) (hand cur)
                        @ map clearFlags (take n (deck room)),
                  discardsUsed := discardsUsed cur + 1\<rparr>))
           \<lparr>deck := drop n (deck room),
            discardPile := (if gameMode room = RECYCLING
                            then discardPile room
                                 @ map clearFlags (filter markedForDiscard (hand cur))
                            else discardPile room)\<rparr>"
  have r: "rooms (final (discardCards s sock roomId)) roomId = Some room'"
    unfolding f room'_def n_def by simp
  have h: "map hand (players room')
      = (map hand (players room))[nat ?i := filter (\<lambda>c. \<not> markedForDiscard c) (hand cur)
                        @ map clearFlags (take n (deck room))]"
    by (simp add: room'_def hands_set_player)
  from card_ids_hands[OF cur h]
  have "card_ids room' + ids (hand cur) + ids (deck room) + ids (discardPile room)
      = card_ids room + ids (filter (\<lambda>c. \<not> markedForDiscard c) (hand cur))
        + (ids (take n (deck room)) + ids (drop n (deck room))) + ids (discardPile room')"
    by (simp add: room'_def ac_simps)
  then have "card_ids room' + ids (hand cur) + ids (deck room) + ids (discardPile room)
      = card_ids room + ids (filter (\<lambda>c. \<not> markedForDiscard c) (hand cur))
        + ids (deck room) + ids (discardPile room')"
    by (simp only: ids_simps(4))
  then have e: "card_ids room' + ids (hand cur) + ids (discardPile room)
      = card_ids room + ids (filter (\<lambda>c. \<not> markedForDiscard c) (hand cur))
        + ids (discardPile room')" by (simp add: add.assoc)
  have hc: "ids (hand cur) = ids (filter markedForDiscard (hand cur))
      + ids (filter (\<lambda>c. \<not> markedForDiscard c) (hand cur))"
    by (simp only: ids_filter)
  show ?thesis
  proof (cases "gameMode room = RECYCLING")
    case True
    then have "discardPile room'
        = discardPile room @ map clearFlags (filter markedForDiscard (hand cur))"
      by (simp add: room'_def)
    with e hc have "card_ids room' = card_ids room" by simp
    with r show ?thesis by blast
  next
    case False
    then have "discardPile room' = discardPile room" by (simp add: room'_def)
    with e hc have "card_ids room' + ids (filter markedForDiscard (hand cur)) = card_ids room"
      by simp
    with r cur False show ?thesis by blast
  qed
qed

lemma distinct_count_le: "distinct xs = (\<forall>a. count (mset xs) a \<le> 1)"
proof (induction xs)
  case Nil
  then show ?case by simp
next
  case (Cons x xs)
  have a: "(x \<notin> set xs) = (count (mset xs) x = 0)" by (simp add: count_eq_zero_iff)
  have b: "(\<forall>a. count (mset (x # xs)) a \<le> 1)
      = (count (mset xs) x = 0 \<and> (\<forall>a. count (mset xs) a \<le> 1))"
  proof
    assume h: "\<forall>a. count (mset (x # xs)) a \<le> 1"
    then have "count (mset (x # xs)) x \<le> 1" by blast
    then have 1: "count (mset xs) x = 0" by simp
    have 2: "count (mset xs) a \<le> 1" for a
    proof (cases "a = x")
      case True
      with 1 have "count (mset xs) a = 0" by (simp only:)
      then show ?thesis by linarith
    next
      case False
      from h have "count (mset (x # xs)) a \<le> 1" by blast
      with False show ?thesis by simp
    qed
    from 1 2 show "count (mset xs) x = 0 \<and> (\<forall>a. count (mset xs) a \<le> 1)" by blast
  next
    assume h: "count (mset xs) x = 0 \<and> (\<forall>a. count (mset xs) a \<le> 1)"
    show "\<forall>a. count (mset (x # xs)) a \<le> 1"
    proof
      fix a
      show "count (mset (x # xs)) a \<le> 1"
      proof (cases "a = x")
        case True
        with h have "count (mset xs) a = 0" by (simp only:)
        then have "count (mset (x # xs)) a = 1" using True by (simp only: mset.simps count_add_mset) simp
        then show ?thesis by linarith
      next
        case False
        from h have "count (mset xs) a \<le> 1" by blast
        with False show ?thesis by simp
      qed
    qed
  qed
  show ?case unfolding b using Cons a by simp
qed

lemma no_duplicates_subset:
  assumes "card_ids r' \<subseteq># card_ids r" "no_duplicates r"
  shows "no_duplicates r'"
proof -
  from assms(2) have "\<forall>x. count (card_ids r) x \<le> 1"
    unfolding no_duplicates_def card_ids_def distinct_count_le .
  with assms(1) have "\<forall>x. count (card_ids r') x \<le> 1"
    by (meson le_trans mset_subset_eq_count)
  then show ?thesis
    unfolding no_duplicates_def card_ids_def distinct_count_le .
qed

lemma push_cards_keys: "map (\<lambda>c. card_key (cid c)) (fst (push_cards ps rs)) = ps"
  by (induction ps rs rule: push_cards.induct) (auto split: prod.splits)

lemma pairs_distinct:
  "distinct (concat (map (\<lambda>s. map (\<lambda>r. (s, r)) [1..13]) suit_names))"
  by code_simp

lemma pairs_length:
  "length (concat (map (\<lambda>s. map (\<lambda>r. (s, r)) [1..13]) suit_names)) = 52"
  by code_simp

lemma createDeck_props:
  "distinct (map cid (fst (createDeck rs)))" "length (fst (createDeck rs)) = 52"
proof -
  let ?ps = "concat (map (\<lambda>s. map (\<lambda>r. (s, r)) [1..13]) suit_names)"
  obtain pushed rs' where pc: "push_cards ?ps rs = (pushed, rs')"
    by (cases "push_cards ?ps rs") auto
  have cd: "fst (createDeck rs) = fst (shuffle pushed rs')"
    by (simp add: createDeck_def pc)
  from push_cards_keys[of ?ps rs] pc have "map (\<lambda>c. card_key (cid c)) pushed = ?ps" by simp
  then have k: "map card_key (map cid pushed) = ?ps" by (simp only: map_map o_def)
  have "distinct (map card_key (map cid pushed))" unfolding k by (rule pairs_distinct)
  then have d: "distinct (map cid pushed)" by (simp only: distinct_map)
  have "mset (map cid (fst (shuffle pushed rs'))) = mset (map cid pushed)"
    using ids_shuffle[of pushed rs'] by (simp add: ids_def)
  from mset_eq_imp_distinct_iff[OF this] d show "distinct (map cid (fst (createDeck rs)))"
    unfolding cd by simp
  have "length pushed = length ?ps" using k by (metis length_map)
  then show "length (fst (createDeck rs)) = 52"
    unfolding cd by (simp add: shuffle_length pairs_length)
qed

lemma deal_two:
  "concat (map hand (map (dealPlayer mode fresh) (enumerate 0 [p, q]))) @ drop 16 fresh = fresh"
proof -
  have "take 8 fresh @ take 8 (drop 8 fresh) = take 16 fresh"
    using take_add[of 8 8 fresh] by simp
  then have "take 8 fresh @ take 8 (drop 8 fresh) @ drop 16 fresh = fresh"
    by (metis append.assoc append_take_drop_id)
  then show ?thesis by (simp add: dealPlayer_def Let_def)
qed

lemma startGame_cards:
  assumes room: "rooms s roomId = Some room" and two: "length (players room) = 2"
  shows "\<exists>room'. rooms (final (startGame s roomId)) roomId = Some room' \<and>
           concat (map hand (players room')) @ deck room' = fst (createDeck (random s)) \<and>
           (gameMode room = RECYCLING \<longrightarrow> discardPile room' = []) \<and>
           gameState room' = Playing"
proof -
  from two obtain p q where pq: "players room = [p, q]"
    by (auto simp: eval_nat_numeral length_Suc_conv)
  obtain fresh rs1 where cd: "createDeck (random s) = (fresh, rs1)"
    by (cases "createDeck (random s)") auto
  obtain first rs2 where rb: "random_below 2 rs1 = (first, rs2)"
    by (cases "random_below 2 rs1") auto
  show ?thesis
    using deal_two[of "gameMode room" fresh p q]
    by (simp add: startGame_def room pq cd rb Let_def put_room_def)
qed

subsection \<open>Predictions\<close>

text \<open>
  C10. \<open>makePrediction\<close> checks only that the room and the session exist, that the
  room is Tactical and that the sender is not the current player. A registered session
  that is not a player of the room is looked up as index \<open>-1\<close>, finds no player record
  there, and the handler goes on to the assignment through it, which throws. A player of
  the room who is not the current player has the prediction recorded whatever the state
  of the game is (waiting, playing or ended).
\<close>

theorem prediction_guards:
  assumes room: "rooms s roomId = Some room"
    and ses: "sessions s sock = Some ses"
    and mode: "gameMode room = TACTICAL"
  shows "((\<forall>p\<in>set (players room). pid p \<noteq> sock) \<and> currentPlayer room \<noteq> - 1 \<longrightarrow>
           findIndex (\<lambda>p. pid p = sock) (players room) = - 1 \<and>
           player_at (players room) (findIndex (\<lambda>p. pid p = sock) (players room)) = None \<and>
           makePrediction s sock roomId pred = throws s) \<and>
         ((\<exists>p\<in>set (players room). pid p = sock) \<and>
          findIndex (\<lambda>p. pid p = sock) (players room) \<noteq> currentPlayer room \<longrightarrow>
           (\<exists>room' me. rooms (final (makePrediction s sock roomId pred)) roomId = Some room' \<and>
              player_at (players room') (findIndex (\<lambda>p. pid p = sock) (players room)) = Some me \<and>
              pid me = sock \<and> prediction me = pred \<and> gameState room' = gameState room \<and>
              thrown (makePrediction s sock roomId pred) = None \<and>
              emitted (makePrediction s sock roomId pred) =
                [(ToRoom roomId,
                  PredictionMade (findIndex (\<lambda>p. pid p = sock) (players room)) pred)]))"
proof (intro conjI impI)
  assume a: "(\<forall>p\<in>set (players room). pid p \<noteq> sock) \<and> currentPlayer room \<noteq> - 1"
  then have i: "findIndex (\<lambda>p. pid p = sock) (players room) = - 1"
    by (simp add: findIndex_none)
  then show "findIndex (\<lambda>p. pid p = sock) (players room) = - 1" .
  show n: "player_at (players room) (findIndex (\<lambda>p. pid p = sock) (players room)) = None"
    unfolding i by (simp add: player_at_def)
  show "makePrediction s sock roomId pred = throws s"
    using a n unfolding makePrediction_def room ses i by (simp add: mode i)
next
  let ?i = "findIndex (\<lambda>p. pid p = sock) (players room)"
  assume b: "(\<exists>p\<in>set (players room). pid p = sock) \<and> ?i \<noteq> currentPlayer room"
  then obtain me where me: "player_at (players room) ?i = Some me" "pid me = sock"
    using player_at_findIndex[of "players room" sock] by blast
  have out: "makePrediction s sock roomId pred =
      emits (put_room s roomId (set_player room ?i (me\<lparr>prediction := pred\<rparr>)))
        [(ToRoom roomId, PredictionMade ?i pred)]"
    using b me unfolding makePrediction_def room ses by (simp add: mode Let_def)
  have pa: "player_at (players (set_player room ?i (me\<lparr>prediction := pred\<rparr>))) ?i
      = Some (me\<lparr>prediction := pred\<rparr>)"
    using player_at_set_player[OF me(1)] by simp
  show "\<exists>room' me. rooms (final (makePrediction s sock roomId pred)) roomId = Some room' \<and>
              player_at (players room') ?i = Some me \<and>
              pid me = sock \<and> prediction me = pred \<and> gameState room' = gameState room \<and>
              thrown (makePrediction s sock roomId pred) = None \<and>
              emitted (makePrediction s sock roomId pred) =
                [(ToRoom roomId, PredictionMade ?i pred)]"
    unfolding out using pa me(2) by (simp add: set_player_def)
qed

text \<open>In a game that has ended, Eve's prediction throws and Bob's is recorded.\<close>

theorem prediction_guards_witness:
  "gameState (duel TACTICAL Ended 100) = Ended \<and>
   makePrediction (duel_server TACTICAL Ended 100) ''eve'' ''room-1'' (Some ''Flush'')
     = throws (duel_server TACTICAL Ended 100) \<and>
   (\<exists>room' me.
      rooms (final (makePrediction (duel_server TACTICAL Ended 100) ''bob'' ''room-1''
                      (Some ''Flush''))) ''room-1'' = Some room' \<and>
      player_at (players room') 1 = Some me \<and> pid me = ''bob'' \<and>
      prediction me = Some ''Flush'' \<and> gameState room' = Ended)"
proof -
  have a: "(\<forall>p\<in>set (players (duel TACTICAL Ended 100)). pid p \<noteq> ''eve'') \<and>
           currentPlayer (duel TACTICAL Ended 100) \<noteq> - 1"
    by simp
  have b: "(\<exists>p\<in>set (players (duel TACTICAL Ended 100)). pid p = ''bob'') \<and>
           findIndex (\<lambda>p. pid p = ''bob'') (players (duel TACTICAL Ended 100))
             \<noteq> currentPlayer (duel TACTICAL Ended 100)"
    by simp
  have i: "findIndex (\<lambda>p. pid p = ''bob'') (players (duel TACTICAL Ended 100)) = 1"
    by simp
  from prediction_guards[OF duel_room duel_sessions(3), of TACTICAL Ended 100 "Some ''Flush''"] a
  have e: "makePrediction (duel_server TACTICAL Ended 100) ''eve'' ''room-1'' (Some ''Flush'')
     = throws (duel_server TACTICAL Ended 100)" by simp
  from prediction_guards[OF duel_room duel_sessions(2), of TACTICAL Ended 100 "Some ''Flush''"] b
  have r: "\<exists>room' me.
      rooms (final (makePrediction (duel_server TACTICAL Ended 100) ''bob'' ''room-1''
                      (Some ''Flush''))) ''room-1'' = Some room' \<and>
      player_at (players room') 1 = Some me \<and> pid me = ''bob'' \<and>
      prediction me = Some ''Flush'' \<and> gameState room' = Ended"
    unfolding i by simp blast
  from e r show ?thesis by simp
qed

subsection \<open>Rejected actions\<close>




subsection \<open>Damage in a Tactical room\<close>








subsection \<open>Turn alternation\<close>

text \<open>
  C6, as the code has it. A hand played by the current player against an opponent who
  survives, and every armor built, flips \<open>currentPlayer\<close> between 0 and 1 and adds 1 to
  \<open>turn\<close>. A hand that brings the opponent's health to 0 ends the game instead: the
  state becomes \<open>Ended\<close> and \<open>currentPlayer\<close> and \<open>turn\<close> stay as they are.
  Selection toggles and discards never change either.
\<close>

theorem turn_alternation:
  assumes room: "rooms s roomId = Some room"
  shows
   "(sessions s sock = Some ses \<and> gameState room = Playing \<and>
     findIndex (\<lambda>p. pid p = sock) (players room) = currentPlayer room \<and>
     player_at (players room) (currentPlayer room) = Some cur \<and>
     selectedCards cur \<noteq> [] \<and> validateHand (selectedCards cur) = Valid \<and>
     player_at (players room) (1 - currentPlayer room) = Some enemy \<longrightarrow>
       (currentPlayer room = 0 \<or> currentPlayer room = 1) \<and>
       (\<exists>room' enemy'.
           rooms (final (playHand s sock roomId)) roomId = Some room' \<and>
           thrown (playHand s sock roomId) = None \<and>
           player_at (players room') (1 - currentPlayer room) = Some enemy' \<and>
           (if health enemy' \<le> 0
            then gameState room' = Ended \<and> currentPlayer room' = currentPlayer room \<and>
                 turn room' = turn room
            else gameState room' = Playing \<and> currentPlayer room' = 1 - currentPlayer room \<and>
                 turn room' = turn room + 1)) \<and>
       (gameMode room = TACTICAL \<longrightarrow>
          (\<exists>room'.
             rooms (final (buildArmor s sock roomId)) roomId = Some room' \<and>
             thrown (buildArmor s sock roomId) = None \<and>
             gameState room' = Playing \<and> currentPlayer room' = 1 - currentPlayer room \<and>
             turn room' = turn room + 1))) \<and>
    (\<exists>room'. rooms (final (selectCard s sock roomId cardId)) roomId = Some room' \<and>
       currentPlayer room' = currentPlayer room \<and> turn room' = turn room) \<and>
    (\<exists>room'. rooms (final (markForDiscard s sock roomId cardId)) roomId = Some room' \<and>
       currentPlayer room' = currentPlayer room \<and> turn room' = turn room) \<and>
    (\<exists>room'. rooms (final (discardCards s sock roomId)) roomId = Some room' \<and>
       currentPlayer room' = currentPlayer room \<and> turn room' = turn room)"
proof (intro conjI impI)
  assume h: "sessions s sock = Some ses \<and> gameState room = Playing \<and>
     findIndex (\<lambda>p. pid p = sock) (players room) = currentPlayer room \<and>
     player_at (players room) (currentPlayer room) = Some cur \<and>
     selectedCards cur \<noteq> [] \<and> validateHand (selectedCards cur) = Valid \<and>
     player_at (players room) (1 - currentPlayer room) = Some enemy"
  then show "currentPlayer room = 0 \<or> currentPlayer room = 1"
    using both_players_index[of "players room" "currentPlayer room" cur enemy] by simp
  from h show "\<exists>room' enemy'.
           rooms (final (playHand s sock roomId)) roomId = Some room' \<and>
           thrown (playHand s sock roomId) = None \<and>
           player_at (players room') (1 - currentPlayer room) = Some enemy' \<and>
           (if health enemy' \<le> 0
            then gameState room' = Ended \<and> currentPlayer room' = currentPlayer room \<and>
                 turn room' = turn room
            else gameState room' = Playing \<and> currentPlayer room' = 1 - currentPlayer room \<and>
                 turn room' = turn room + 1)"
    using playHand_turn[OF room, of sock ses cur enemy] by simp
  assume "gameMode room = TACTICAL"
  with h show "\<exists>room'.
             rooms (final (buildArmor s sock roomId)) roomId = Some room' \<and>
             thrown (buildArmor s sock roomId) = None \<and>
             gameState room' = Playing \<and> currentPlayer room' = 1 - currentPlayer room \<and>
             turn room' = turn room + 1"
    using buildArmor_turn[OF room, of sock ses cur enemy] by simp
next
  show "\<exists>room'. rooms (final (selectCard s sock roomId cardId)) roomId = Some room' \<and>
       currentPlayer room' = currentPlayer room \<and> turn room' = turn room"
    using toggles_keep_turn(1)[OF room, of sock cardId] by blast
  show "\<exists>room'. rooms (final (markForDiscard s sock roomId cardId)) roomId = Some room' \<and>
       currentPlayer room' = currentPlayer room \<and> turn room' = turn room"
    using toggles_keep_turn(2)[OF room, of sock cardId] by blast
  show "\<exists>room'. rooms (final (discardCards s sock roomId)) roomId = Some room' \<and>
       currentPlayer room' = currentPlayer room \<and> turn room' = turn room"
    using toggles_keep_turn(3)[OF room, of sock] by blast
qed

text \<open>
  C6 as stated fails on the winning play: Alice's pair of fives (damage 15) against Bob's
  armor of 10 and his last 5 points of health is resolved (Bob's health is 0, the game has
  ended), and the turn counter and the current player are what they were.
\<close>

theorem turn_alternation_counterexample:
  "validateHand (selectedCards alice) = Valid \<and>
   gameState (duel TACTICAL Playing 5) = Playing \<and>
   currentPlayer (duel TACTICAL Playing 5) = 0 \<and> turn (duel TACTICAL Playing 5) = 5 \<and>
   thrown (playHand (duel_server TACTICAL Playing 5) ''alice'' ''room-1'') = None \<and>
   map_option gameState
     (rooms (final (playHand (duel_server TACTICAL Playing 5) ''alice'' ''room-1'')) ''room-1'')
     = Some Ended \<and>
   map_option (map health)
     (map_option players
        (rooms (final (playHand (duel_server TACTICAL Playing 5) ''alice'' ''room-1'')) ''room-1''))
     = Some [100, 0] \<and>
   map_option currentPlayer
     (rooms (final (playHand (duel_server TACTICAL Playing 5) ''alice'' ''room-1'')) ''room-1'')
     = Some 0 \<and>
   map_option turn
     (rooms (final (playHand (duel_server TACTICAL Playing 5) ''alice'' ''room-1'')) ''room-1'')
     = Some 5"
  unfolding duel_play
  by (simp add: fives_valid playHand_resolve_def Let_def checkPrediction_def applyArmor_def
      truthy_def recycle_def fives_result set_player_def put_room_def)
     (simp add: alice_def)

text \<open>
  In the Tactical example room Alice's play and Alice's armor pass the turn to Bob as turn
  6, and her discard leaves the turn with her.
\<close>

theorem turn_alternation_witness:
  "(\<exists>room'. rooms (final (playHand (duel_server TACTICAL Playing 100) ''alice'' ''room-1''))
                ''room-1'' = Some room' \<and>
             gameState room' = Playing \<and> currentPlayer room' = 1 \<and> turn room' = 6) \<and>
   (\<exists>room'. rooms (final (buildArmor (duel_server TACTICAL Playing 100) ''alice'' ''room-1''))
                ''room-1'' = Some room' \<and>
             gameState room' = Playing \<and> currentPlayer room' = 1 \<and> turn room' = 6) \<and>
   (\<exists>room'. rooms (final (discardCards (duel_server TACTICAL Playing 100) ''alice'' ''room-1''))
                ''room-1'' = Some room' \<and>
             currentPlayer room' = 0 \<and> turn room' = 5)"
proof -
  let ?s = "duel_server TACTICAL Playing 100"
  let ?r = "duel TACTICAL Playing 100"
  have h: "sessions ?s ''alice'' = Some \<lparr>sname = ''Alice'', sroom = Some ''room-1''\<rparr> \<and>
     gameState ?r = Playing \<and>
     findIndex (\<lambda>p. pid p = ''alice'') (players ?r) = currentPlayer ?r \<and>
     player_at (players ?r) (currentPlayer ?r) = Some alice \<and>
     selectedCards alice \<noteq> [] \<and> validateHand (selectedCards alice) = Valid \<and>
     player_at (players ?r) (1 - currentPlayer ?r) = Some (bob 100)"
    by (simp add: fives_valid alice_has_selection)
  note ta = turn_alternation[OF duel_room, of TACTICAL Playing 100 "''alice''"
      "\<lparr>sname = ''Alice'', sroom = Some ''room-1''\<rparr>" alice "bob 100" "CardId Hearts 9 0"]
  from ta h obtain room' enemy' where
    r: "rooms (final (playHand ?s ''alice'' ''room-1'')) ''room-1'' = Some room'"
    and e: "player_at (players room') (1 - currentPlayer ?r) = Some enemy'"
    and c: "if health enemy' \<le> 0
            then gameState room' = Ended \<and> currentPlayer room' = currentPlayer ?r \<and>
                 turn room' = turn ?r
            else gameState room' = Playing \<and> currentPlayer room' = 1 - currentPlayer ?r \<and>
                 turn room' = turn ?r + 1"
    by blast
  from duel_tactical_health r have "map health (players room') = [100, 95]" by simp
  from health_at[OF this e] have "health enemy' = 95" by simp
  with c have "gameState room' = Playing \<and> currentPlayer room' = 1 \<and> turn room' = 6" by simp
  with r have a: "\<exists>room'. rooms (final (playHand ?s ''alice'' ''room-1'')) ''room-1'' = Some room' \<and>
             gameState room' = Playing \<and> currentPlayer room' = 1 \<and> turn room' = 6" by blast
  from ta h have b: "\<exists>room'. rooms (final (buildArmor ?s ''alice'' ''room-1'')) ''room-1'' = Some room' \<and>
             gameState room' = Playing \<and> currentPlayer room' = 1 \<and> turn room' = 6"
    by simp blast
  from ta have d: "\<exists>room'. rooms (final (discardCards ?s ''alice'' ''room-1'')) ''room-1'' = Some room' \<and>
             currentPlayer room' = 0 \<and> turn room' = 5"
    by simp
  from a b d show ?thesis by blast
qed

subsection \<open>Recycling\<close>

text \<open>
  C9. In a Recycling room, a valid play of the current player first appends the played
  cards (flags cleared) to the discard pile. If the draw pile then has fewer than 8 cards
  and the discard pile is not empty, the pile is shuffled (a permutation of it, by the
  function that \<open>createDeck\<close> shuffles the new deck with), put at the bottom of the
  draw pile and emptied, and the 8 cards of the new hand are drawn from the result;
  otherwise the hand is drawn from the draw pile as it is and the pile keeps the played
  cards. \<open>buildArmor\<close>, the other turn-ending action, does nothing in a Recycling room:
  its guard asks for a Tactical room.
\<close>

theorem recycling_reshuffle:
  assumes room: "rooms s roomId = Some room" and ses: "sessions s sock = Some ses"
    and mode: "gameMode room = RECYCLING"
  shows
   "(gameState room = Playing \<and>
     findIndex (\<lambda>p. pid p = sock) (players room) = currentPlayer room \<and>
     player_at (players room) (currentPlayer room) = Some cur \<and>
     selectedCards cur \<noteq> [] \<and> validateHand (selectedCards cur) = Valid \<and>
     player_at (players room) (1 - currentPlayer room) = Some enemy \<longrightarrow>
       (\<exists>room'.
          rooms (final (playHand s sock roomId)) roomId = Some room' \<and>
          thrown (playHand s sock roomId) = None \<and>
          (if length (deck room) < 8 \<and>
              discardPile room @ map clearFlags (filter selected (hand cur)) \<noteq> []
           then
             mset (fst (shuffle (discardPile room @ map clearFlags (filter selected (hand cur)))
                          (random s)))
               = mset (discardPile room @ map clearFlags (filter selected (hand cur))) \<and>
             map hand (players room')
               = (map hand (players room))
                   [nat (currentPlayer room) :=
                      map clearFlags
                        (take 8 (deck room
                           @ fst (shuffle
                                    (discardPile room
                                       @ map clearFlags (filter selected (hand cur)))
                                    (random s))))] \<and>
             deck room'
               = drop 8 (deck room
                   @ fst (shuffle
                            (discardPile room @ map clearFlags (filter selected (hand cur)))
                            (random s))) \<and>
             discardPile room' = [] \<and>
             random (final (playHand s sock roomId))
               = snd (shuffle (discardPile room @ map clearFlags (filter selected (hand cur)))
                        (random s))
           else
             map hand (players room')
               = (map hand (players room))
                   [nat (currentPlayer room) := map clearFlags (take 8 (deck room))] \<and>
             deck room' = drop 8 (deck room) \<and>
             discardPile room'
               = discardPile room @ map clearFlags (filter selected (hand cur)) \<and>
             random (final (playHand s sock roomId)) = random s))) \<and>
    buildArmor s sock roomId = silent s \<and>
    createDeck (random s)
      = shuffle (fst (push_cards (concat (map (\<lambda>su. map (\<lambda>r. (su, r)) [1..13]) suit_names))
                        (random s)))
          (snd (push_cards (concat (map (\<lambda>su. map (\<lambda>r. (su, r)) [1..13]) suit_names))
                  (random s)))"
proof (intro conjI impI)
  assume h: "gameState room = Playing \<and>
     findIndex (\<lambda>p. pid p = sock) (players room) = currentPlayer room \<and>
     player_at (players room) (currentPlayer room) = Some cur \<and>
     selectedCards cur \<noteq> [] \<and> validateHand (selectedCards cur) = Valid \<and>
     player_at (players room) (1 - currentPlayer room) = Some enemy"
  let ?pile = "discardPile room @ map clearFlags (filter selected (hand cur))"
  from h have st: "gameState room = Playing"
    and turn: "findIndex (\<lambda>p. pid p = sock) (players room) = currentPlayer room"
    and cur: "player_at (players room) (currentPlayer room) = Some cur"
    and sel: "selectedCards cur \<noteq> []" and valid: "validateHand (selectedCards cur) = Valid"
    and en: "player_at (players room) (1 - currentPlayer room) = Some enemy"
    by simp_all
  show "\<exists>room'.
          rooms (final (playHand s sock roomId)) roomId = Some room' \<and>
          thrown (playHand s sock roomId) = None \<and>
          (if length (deck room) < 8 \<and> ?pile \<noteq> []
           then
             mset (fst (shuffle ?pile (random s))) = mset ?pile \<and>
             map hand (players room')
               = (map hand (players room))
                   [nat (currentPlayer room) :=
                      map clearFlags (take 8 (deck room @ fst (shuffle ?pile (random s))))] \<and>
             deck room' = drop 8 (deck room @ fst (shuffle ?pile (random s))) \<and>
             discardPile room' = [] \<and>
             random (final (playHand s sock roomId)) = snd (shuffle ?pile (random s))
           else
             map hand (players room')
               = (map hand (players room))
                   [nat (currentPlayer room) := map clearFlags (take 8 (deck room))] \<and>
             deck room' = drop 8 (deck room) \<and>
             discardPile room' = ?pile \<and>
             random (final (playHand s sock roomId)) = random s)"
  proof (cases "length (deck room) < 8 \<and> ?pile \<noteq> []")
    case True
    then have cond: "(length (deck room) < 8 \<and> ?pile \<noteq> []) = True" by simp
    have rc: "recycle (gameMode room) (filter selected (hand cur)) (deck room)
               (discardPile room) (random s)
        = (deck room @ fst (shuffle ?pile (random s)), [], snd (shuffle ?pile (random s)))"
      unfolding mode recycle_recycling cond if_True ..
    from playHand_cards[OF room ses st turn cur sel valid en rc] obtain room' where
      r: "rooms (final (playHand s sock roomId)) roomId = Some room'"
        "thrown (playHand s sock roomId) = None"
        "random (final (playHand s sock roomId)) = snd (shuffle ?pile (random s))"
        "deck room' = drop 8 (deck room @ fst (shuffle ?pile (random s)))"
        "discardPile room' = []"
        "map hand (players room')
           = (map hand (players room))
               [nat (currentPlayer room) :=
                  map clearFlags (take 8 (deck room @ fst (shuffle ?pile (random s))))]"
      by blast
    show ?thesis unfolding cond if_True
      using r shuffle_mset[of ?pile "random s"] by blast
  next
    case False
    then have cond: "(length (deck room) < 8 \<and> ?pile \<noteq> []) = False" by simp
    have rc: "recycle (gameMode room) (filter selected (hand cur)) (deck room)
               (discardPile room) (random s) = (deck room, ?pile, random s)"
      unfolding mode recycle_recycling cond if_False ..
    from playHand_cards[OF room ses st turn cur sel valid en rc] obtain room' where
      r: "rooms (final (playHand s sock roomId)) roomId = Some room'"
        "thrown (playHand s sock roomId) = None"
        "random (final (playHand s sock roomId)) = random s"
        "deck room' = drop 8 (deck room)"
        "discardPile room' = ?pile"
        "map hand (players room')
           = (map hand (players room))
               [nat (currentPlayer room) := map clearFlags (take 8 (deck room))]"
      by blast
    show ?thesis unfolding cond if_False
      using r by blast
  qed
next
  show "buildArmor s sock roomId = silent s"
    using room ses mode by (simp add: buildArmor_def)
next
  show "createDeck (random s)
      = shuffle (fst (push_cards (concat (map (\<lambda>su. map (\<lambda>r. (su, r)) [1..13]) suit_names))
                        (random s)))
          (snd (push_cards (concat (map (\<lambda>su. map (\<lambda>r. (su, r)) [1..13]) suit_names))
                  (random s)))"
    by (simp add: createDeck_def split: prod.splits)
qed

text \<open>
  In the Recycling example room the draw pile has 4 cards and the discard pile 5. Alice's
  pair of fives joins the pile, the 7 cards are shuffled under the 4, Alice draws 8 and 3
  are left; the pile is empty.
\<close>

theorem recycling_reshuffle_witness:
  "length (deck (duel RECYCLING Playing 100)) < 8 \<and>
   discardPile (duel RECYCLING Playing 100) \<noteq> [] \<and>
   (\<exists>room'.
      rooms (final (playHand (duel_server RECYCLING Playing 100) ''alice'' ''room-1'')) ''room-1''
        = Some room' \<and>
      discardPile room' = [] \<and>
      map cid (deck room') = [CardId Hearts 13 0, CardId Spades 3 0, CardId Diamonds 9 0] \<and>
      map (map cid) (map hand (players room'))
        = [[CardId Clubs 1 0, CardId Diamonds 12 0, CardId Spades 4 0, CardId Hearts 7 0,
            CardId Spades 2 0, CardId Diamonds 5 0, CardId Clubs 6 0, CardId Clubs 5 0],
           map cid (hand (bob 100))]) \<and>
   random (final (playHand (duel_server RECYCLING Playing 100) ''alice'' ''room-1'')) = [2, 6]"
proof -
  let ?s = "duel_server RECYCLING Playing 100"
  let ?r = "duel RECYCLING Playing 100"
  have h: "gameState ?r = Playing \<and>
     findIndex (\<lambda>p. pid p = ''alice'') (players ?r) = currentPlayer ?r \<and>
     player_at (players ?r) (currentPlayer ?r) = Some alice \<and>
     selectedCards alice \<noteq> [] \<and> validateHand (selectedCards alice) = Valid \<and>
     player_at (players ?r) (1 - currentPlayer ?r) = Some (bob 100)"
    by (simp add: fives_valid alice_has_selection)
  have c: "length (deck ?r) < 8 \<and>
     discardPile ?r @ map clearFlags (filter selected (hand alice)) \<noteq> []"
    unfolding duel_recycling_pile by simp
  note rr = recycling_reshuffle[OF duel_room duel_sessions(1) duel_fields(1),
      of Playing 100 alice "bob 100"]
  from rr h c obtain room' where
    r: "rooms (final (playHand ?s ''alice'' ''room-1'')) ''room-1'' = Some room'"
      "map hand (players room')
         = (map hand (players ?r))
             [nat (currentPlayer ?r) :=
                map clearFlags
                  (take 8 (deck ?r
                     @ fst (shuffle (discardPile ?r @ map clearFlags (filter selected (hand alice)))
                              (random ?s))))]"
      "deck room'
         = drop 8 (deck ?r
             @ fst (shuffle (discardPile ?r @ map clearFlags (filter selected (hand alice)))
                      (random ?s)))"
      "discardPile room' = []"
      "random (final (playHand ?s ''alice'' ''room-1''))
         = snd (shuffle (discardPile ?r @ map clearFlags (filter selected (hand alice)))
                  (random ?s))"
    by auto
  have d: "discardPile ?r \<noteq> []" by (simp add: duel_def)
  show ?thesis
    using r c d unfolding duel_recycling_pile
    by (intro conjI exI[of _ room']) (simp_all add: duel_shuffle)
qed

subsection \<open>Starting with two players\<close>

text \<open>\<open>startGame\<close> does nothing unless the room has exactly two players.\<close>

lemma startGame_needs_two:
  "rooms s roomId = Some room \<Longrightarrow> length (players room) \<noteq> 2 \<Longrightarrow> startGame s roomId = silent s"
  by (simp add: startGame_def)

lemma lonely_room_lookup [simp]: "rooms lonely_server ''room-1'' = Some lonely_room"
  by (simp add: lonely_server_def)

lemma lonely_players [simp]: "players lonely_room = [alice]"
  by (simp add: lonely_room_def)

text \<open>
  C8 fails for \<open>acceptRematch\<close>, which has no such guard. In the room that Bob has
  left, \<open>startGame\<close> does nothing, but Alice's acceptance of a rematch deals her a new
  hand of 8 from a new deck, resets her health, sets the state to \<open>Playing\<close> and picks a
  first player; when the pick is the absent second player, the handler throws after the
  room has been set to \<open>Playing\<close>.
\<close>

theorem rematch_without_opponent:
  "length (players lonely_room) = 1 \<and> gameState lonely_room = Ended \<and>
   startGame lonely_server ''room-1'' = silent lonely_server \<and>
   thrown (acceptRematch lonely_server ''alice'' ''room-1'') = None \<and>
   map fst (emitted (acceptRematch lonely_server ''alice'' ''room-1'')) = [ToRoom ''room-1''] \<and>
   map_option gameState
     (rooms (final (acceptRematch lonely_server ''alice'' ''room-1'')) ''room-1'') = Some Playing \<and>
   map_option turn
     (rooms (final (acceptRematch lonely_server ''alice'' ''room-1'')) ''room-1'') = Some 1 \<and>
   map_option currentPlayer
     (rooms (final (acceptRematch lonely_server ''alice'' ''room-1'')) ''room-1'') = Some 0 \<and>
   map_option (map health)
     (map_option players
        (rooms (final (acceptRematch lonely_server ''alice'' ''room-1'')) ''room-1'')) = Some [100] \<and>
   map_option (map length)
     (map_option (map hand)
        (map_option players
           (rooms (final (acceptRematch lonely_server ''alice'' ''room-1'')) ''room-1''))) = Some [8] \<and>
   map_option length
     (map_option deck
        (rooms (final (acceptRematch lonely_server ''alice'' ''room-1'')) ''room-1'')) = Some 36 \<and>
   thrown (acceptRematch (lonely_server\<lparr>random := replicate 103 0 @ [1]\<rparr>) ''alice'' ''room-1'')
     = Some TypeError \<and>
   map_option gameState
     (rooms (final (acceptRematch (lonely_server\<lparr>random := replicate 103 0 @ [1]\<rparr>)
                      ''alice'' ''room-1'')) ''room-1'') = Some Playing \<and>
   map_option currentPlayer
     (rooms (final (acceptRematch (lonely_server\<lparr>random := replicate 103 0 @ [1]\<rparr>)
                      ''alice'' ''room-1'')) ''room-1'') = Some 1"
proof (intro conjI)
  show "length (players lonely_room) = 1" by simp
  show "gameState lonely_room = Ended" by (simp add: lonely_room_def)
  show "startGame lonely_server ''room-1'' = silent lonely_server"
    by (rule startGame_needs_two[OF lonely_room_lookup]) simp
qed code_simp+

subsection \<open>Conservation of the cards\<close>

lemma subset_from_sum: "(a::'a multiset) + b = c \<Longrightarrow> a \<subseteq># c"
  by (metis mset_subset_eq_add_left)

text \<open>
  C1, as the code has it. No operation adds or duplicates a card: after a selection
  toggle, a discard, a played hand or built armor the ids in hands, draw pile and discard
  pile are a sub-multiset of those before, so ids that were distinct stay distinct, and a
  game that \<open>startGame\<close> has just dealt has 52 distinct cards in the two hands and the
  draw pile. The cards are not conserved, though. Toggles keep them all, and so does a
  discard in a Recycling room; but a resolved play replaces the whole hand of the player,
  so that the room loses that hand (Classic and Tactical, where played and discarded
  cards have no pile to go to) or its unplayed cards (Recycling).
\<close>

theorem cards_never_duplicated:
  assumes room: "rooms s roomId = Some room"
  shows
   "(\<exists>room'. rooms (final (selectCard s sock roomId cardId)) roomId = Some room' \<and>
       card_ids room' = card_ids room) \<and>
    (\<exists>room'. rooms (final (markForDiscard s sock roomId cardId)) roomId = Some room' \<and>
       card_ids room' = card_ids room) \<and>
    (\<exists>room'. rooms (final (discardCards s sock roomId)) roomId = Some room' \<and>
       card_ids room' \<subseteq># card_ids room \<and>
       (gameMode room = RECYCLING \<longrightarrow> card_ids room' = card_ids room) \<and>
       (no_duplicates room \<longrightarrow> no_duplicates room')) \<and>
    (\<exists>room'. rooms (final (playHand s sock roomId)) roomId = Some room' \<and>
       card_ids room' \<subseteq># card_ids room \<and>
       (no_duplicates room \<longrightarrow> no_duplicates room')) \<and>
    (\<exists>room'. rooms (final (buildArmor s sock roomId)) roomId = Some room' \<and>
       card_ids room' \<subseteq># card_ids room \<and>
       (no_duplicates room \<longrightarrow> no_duplicates room')) \<and>
    (sessions s sock = Some ses \<and> gameState room = Playing \<and>
     findIndex (\<lambda>p. pid p = sock) (players room) = currentPlayer room \<and>
     player_at (players room) (currentPlayer room) = Some cur \<and>
     selectedCards cur \<noteq> [] \<and> validateHand (selectedCards cur) = Valid \<and>
     player_at (players room) (1 - currentPlayer room) = Some enemy \<longrightarrow>
       (\<exists>room'. rooms (final (playHand s sock roomId)) roomId = Some room' \<and>
          card_ids room'
            + ids (if gameMode room = RECYCLING then filter (\<lambda>c. \<not> selected c) (hand cur)
                   else hand cur)
          = card_ids room)) \<and>
    (length (players room) = 2 \<longrightarrow>
       (\<exists>room'. rooms (final (startGame s roomId)) roomId = Some room' \<and>
          distinct (map cid (concat (map hand (players room')) @ deck room')) \<and>
          length (concat (map hand (players room')) @ deck room') = 52 \<and>
          (gameMode room = RECYCLING \<longrightarrow> no_duplicates room' \<and> size (card_ids room') = 52)))"
proof (intro conjI impI)
  show "\<exists>room'. rooms (final (selectCard s sock roomId cardId)) roomId = Some room' \<and>
       card_ids room' = card_ids room"
    by (rule selectCard_ids[OF room])
  show "\<exists>room'. rooms (final (markForDiscard s sock roomId cardId)) roomId = Some room' \<and>
       card_ids room' = card_ids room"
    by (rule markForDiscard_ids[OF room])
  show "\<exists>room'. rooms (final (discardCards s sock roomId)) roomId = Some room' \<and>
       card_ids room' \<subseteq># card_ids room \<and>
       (gameMode room = RECYCLING \<longrightarrow> card_ids room' = card_ids room) \<and>
       (no_duplicates room \<longrightarrow> no_duplicates room')"
  proof -
    from discardCards_ids[OF room, of sock] obtain room' where
      r: "rooms (final (discardCards s sock roomId)) roomId = Some room'"
      and c: "card_ids room' = card_ids room \<or>
            (gameMode room \<noteq> RECYCLING \<and>
             (\<exists>cur. player_at (players room) (currentPlayer room) = Some cur \<and>
                card_ids room' + ids (filter markedForDiscard (hand cur)) = card_ids room))"
      by blast
    from c have sub: "card_ids room' \<subseteq># card_ids room"
      by (metis subset_from_sum subset_mset.order_refl)
    from c have eq: "gameMode room = RECYCLING \<longrightarrow> card_ids room' = card_ids room" by blast
    from r sub eq no_duplicates_subset[OF sub] show ?thesis by blast
  qed
  show "\<exists>room'. rooms (final (playHand s sock roomId)) roomId = Some room' \<and>
       card_ids room' \<subseteq># card_ids room \<and>
       (no_duplicates room \<longrightarrow> no_duplicates room')"
  proof -
    from playHand_paths[OF room, of sock] show ?thesis
    proof
      assume "final (playHand s sock roomId) = s"
      with room show ?thesis by simp
    next
      assume "\<exists>ses cur enemy. sessions s sock = Some ses \<and> gameState room = Playing \<and>
        findIndex (\<lambda>p. pid p = sock) (players room) = currentPlayer room \<and>
        player_at (players room) (currentPlayer room) = Some cur \<and>
        selectedCards cur \<noteq> [] \<and> validateHand (selectedCards cur) = Valid \<and>
        player_at (players room) (1 - currentPlayer room) = Some enemy"
      then obtain ses cur enemy where h: "sessions s sock = Some ses" "gameState room = Playing"
        "findIndex (\<lambda>p. pid p = sock) (players room) = currentPlayer room"
        "player_at (players room) (currentPlayer room) = Some cur"
        "selectedCards cur \<noteq> []" "validateHand (selectedCards cur) = Valid"
        "player_at (players room) (1 - currentPlayer room) = Some enemy"
        by blast
      from playHand_ids[OF room h] obtain room' where
        r: "rooms (final (playHand s sock roomId)) roomId = Some room'"
        and e: "card_ids room'
             + ids (if gameMode room = RECYCLING then filter (\<lambda>c. \<not> selected c) (hand cur)
                    else hand cur) = card_ids room" by blast
      from subset_from_sum[OF e] have sub: "card_ids room' \<subseteq># card_ids room" .
      from r sub no_duplicates_subset[OF sub] show ?thesis by blast
    qed
  qed
  show "\<exists>room'. rooms (final (buildArmor s sock roomId)) roomId = Some room' \<and>
       card_ids room' \<subseteq># card_ids room \<and>
       (no_duplicates room \<longrightarrow> no_duplicates room')"
  proof -
    from buildArmor_paths[OF room, of sock] show ?thesis
    proof
      assume "final (buildArmor s sock roomId) = s"
      with room show ?thesis by simp
    next
      assume "\<exists>ses cur. sessions s sock = Some ses \<and> gameState room = Playing \<and>
        gameMode room = TACTICAL \<and>
        findIndex (\<lambda>p. pid p = sock) (players room) = currentPlayer room \<and>
        player_at (players room) (currentPlayer room) = Some cur \<and>
        selectedCards cur \<noteq> [] \<and> validateHand (selectedCards cur) = Valid"
      then obtain ses cur where h: "sessions s sock = Some ses" "gameState room = Playing"
        "gameMode room = TACTICAL"
        "findIndex (\<lambda>p. pid p = sock) (players room) = currentPlayer room"
        "player_at (players room) (currentPlayer room) = Some cur"
        "selectedCards cur \<noteq> []" "validateHand (selectedCards cur) = Valid"
        by blast
      from buildArmor_ids[OF room h] obtain room' where
        r: "rooms (final (buildArmor s sock roomId)) roomId = Some room'"
        and e: "card_ids room' + ids (hand cur) = card_ids room" by blast
      from subset_from_sum[OF e] have sub: "card_ids room' \<subseteq># card_ids room" .
      from r sub no_duplicates_subset[OF sub] show ?thesis by blast
    qed
  qed
next
  assume h: "sessions s sock = Some ses \<and> gameState room = Playing \<and>
     findIndex (\<lambda>p. pid p = sock) (players room) = currentPlayer room \<and>
     player_at (players room) (currentPlayer room) = Some cur \<and>
     selectedCards cur \<noteq> [] \<and> validateHand (selectedCards cur) = Valid \<and>
     player_at (players room) (1 - currentPlayer room) = Some enemy"
  then show "\<exists>room'. rooms (final (playHand s sock roomId)) roomId = Some room' \<and>
          card_ids room'
            + ids (if gameMode room = RECYCLING then filter (\<lambda>c. \<not> selected c) (hand cur)
                   else hand cur)
          = card_ids room"
    using playHand_ids[OF room, of sock ses cur enemy] by blast
next
  assume two: "length (players room) = 2"
  from startGame_cards[OF room two] obtain room' where
    r: "rooms (final (startGame s roomId)) roomId = Some room'"
    and c: "concat (map hand (players room')) @ deck room' = fst (createDeck (random s))"
    and p: "gameMode room = RECYCLING \<longrightarrow> discardPile room' = []"
    by blast
  have d: "distinct (map cid (concat (map hand (players room')) @ deck room'))"
    unfolding c by (rule createDeck_props(1))
  have l: "length (concat (map hand (players room')) @ deck room') = 52"
    unfolding c by (rule createDeck_props(2))
  have a: "gameMode room = RECYCLING \<longrightarrow> all_cards room' = fst (createDeck (random s))"
    using p c by (simp add: all_cards_def)
  have "gameMode room = RECYCLING \<longrightarrow> no_duplicates room' \<and> size (card_ids room') = 52"
    using a createDeck_props[of "random s"] by (simp add: no_duplicates_def card_ids_def)
  with r d l show "\<exists>room'. rooms (final (startGame s roomId)) roomId = Some room' \<and>
          distinct (map cid (concat (map hand (players room')) @ deck room')) \<and>
          length (concat (map hand (players room')) @ deck room') = 52 \<and>
          (gameMode room = RECYCLING \<longrightarrow> no_duplicates room' \<and> size (card_ids room') = 52)"
    by blast
qed

text \<open>
  C1 as stated fails in every mode. In a Classic game and in a Recycling game, right after
  the deal (52 distinct cards), Alice plays the two of hearts: 44 cards are left in the
  Classic room and 45 in the Recycling room, and the three of hearts, which she held and
  did not play, is in neither.
\<close>

theorem cards_never_duplicated_counterexample:
  "length (room_card_ids (game_started CLASSIC) ''room-1'') = 52 \<and>
   distinct (room_card_ids (game_started CLASSIC) ''room-1'') \<and>
   CardId Hearts 3 4 \<in> set (room_card_ids (game_started CLASSIC) ''room-1'') \<and>
   map_option turn (rooms (game_played CLASSIC) ''room-1'') = Some 2 \<and>
   length (room_card_ids (game_played CLASSIC) ''room-1'') = 44 \<and>
   CardId Hearts 3 4 \<notin> set (room_card_ids (game_played CLASSIC) ''room-1'') \<and>
   length (room_card_ids (game_started RECYCLING) ''room-1'') = 52 \<and>
   distinct (room_card_ids (game_started RECYCLING) ''room-1'') \<and>
   CardId Hearts 3 4 \<in> set (room_card_ids (game_started RECYCLING) ''room-1'') \<and>
   map_option turn (rooms (game_played RECYCLING) ''room-1'') = Some 2 \<and>
   map_option (map cid) (map_option discardPile (rooms (game_played RECYCLING) ''room-1''))
     = Some [CardId Hearts 2 7] \<and>
   length (room_card_ids (game_played RECYCLING) ''room-1'') = 45 \<and>
   CardId Hearts 3 4 \<notin> set (room_card_ids (game_played RECYCLING) ''room-1'')"
  by (intro conjI) code_simp+

text \<open>
  In the Recycling example room, with 25 distinct cards, Alice's play leaves 19 distinct
  cards (the six cards that she did not play are gone), her discard keeps them all, and
  a new start deals 52 distinct cards.
\<close>

lemma size_card_ids: "size (card_ids r) = length (all_cards r)"
  by (simp add: card_ids_def)

lemma size_ids: "size (ids cs) = length cs"
  by (simp add: ids_def)

lemma duel_recycling_cards:
  "no_duplicates (duel RECYCLING Playing 100)" "length (all_cards (duel RECYCLING Playing 100)) = 25"
  "length (filter (\<lambda>c. \<not> selected c) (hand alice)) = 6"
  by (code_simp+)

theorem cards_never_duplicated_witness:
  "no_duplicates (duel RECYCLING Playing 100) \<and>
   size (card_ids (duel RECYCLING Playing 100)) = 25 \<and>
   (\<exists>room'. rooms (final (playHand (duel_server RECYCLING Playing 100) ''alice'' ''room-1''))
                ''room-1'' = Some room' \<and>
             no_duplicates room' \<and> size (card_ids room') = 19) \<and>
   (\<exists>room'. rooms (final (discardCards (duel_server RECYCLING Playing 100) ''alice'' ''room-1''))
                ''room-1'' = Some room' \<and>
             card_ids room' = card_ids (duel RECYCLING Playing 100)) \<and>
   (\<exists>room'. rooms (final (startGame (duel_server RECYCLING Playing 100) ''room-1''))
                ''room-1'' = Some room' \<and>
             no_duplicates room' \<and> size (card_ids room') = 52)"
proof -
  let ?s = "duel_server RECYCLING Playing 100"
  let ?r = "duel RECYCLING Playing 100"
  have h: "sessions ?s ''alice'' = Some \<lparr>sname = ''Alice'', sroom = Some ''room-1''\<rparr> \<and>
     gameState ?r = Playing \<and>
     findIndex (\<lambda>p. pid p = ''alice'') (players ?r) = currentPlayer ?r \<and>
     player_at (players ?r) (currentPlayer ?r) = Some alice \<and>
     selectedCards alice \<noteq> [] \<and> validateHand (selectedCards alice) = Valid \<and>
     player_at (players ?r) (1 - currentPlayer ?r) = Some (bob 100)"
    by (simp add: fives_valid alice_has_selection)
  note t = cards_never_duplicated[OF duel_room, of RECYCLING Playing 100 "''alice''"
      "CardId Hearts 9 0" "\<lparr>sname = ''Alice'', sroom = Some ''room-1''\<rparr>" alice "bob 100"]
  note t_discard = t[THEN conjunct2, THEN conjunct2, THEN conjunct1]
  note t_play = t[THEN conjunct2, THEN conjunct2, THEN conjunct2, THEN conjunct1]
  note t_loss = t[THEN conjunct2, THEN conjunct2, THEN conjunct2, THEN conjunct2,
      THEN conjunct2, THEN conjunct1, rule_format, OF h]
  from t_play obtain room' where
    r: "rooms (final (playHand ?s ''alice'' ''room-1'')) ''room-1'' = Some room'"
    and nd': "no_duplicates ?r \<longrightarrow> no_duplicates room'"
    by blast
  from nd' duel_recycling_cards(1) have nd: "no_duplicates room'" by simp
  from t_loss obtain room'' where
    r2: "rooms (final (playHand ?s ''alice'' ''room-1'')) ''room-1'' = Some room''"
    and e: "card_ids room''
        + ids (if gameMode ?r = RECYCLING then filter (\<lambda>c. \<not> selected c) (hand alice)
               else hand alice) = card_ids ?r"
    by blast
  from r r2 have same: "room'' = room'" by simp
  from e have "card_ids room' + ids (filter (\<lambda>c. \<not> selected c) (hand alice)) = card_ids ?r"
    unfolding same by simp
  then have "size (card_ids room' + ids (filter (\<lambda>c. \<not> selected c) (hand alice)))
      = size (card_ids ?r)" by (simp only:)
  then have "size (card_ids room') + 6 = 25"
    by (simp only: size_union size_ids size_card_ids duel_recycling_cards)
  then have sz: "size (card_ids room') = 19" by simp
  from t_discard obtain room3 where
    r3: "rooms (final (discardCards ?s ''alice'' ''room-1'')) ''room-1'' = Some room3"
    and e3: "gameMode ?r = RECYCLING \<longrightarrow> card_ids room3 = card_ids ?r"
    by blast
  from e3 have e3': "card_ids room3 = card_ids ?r" by simp
  have p1: "\<exists>room'. rooms (final (playHand ?s ''alice'' ''room-1'')) ''room-1'' = Some room' \<and>
             no_duplicates room' \<and> size (card_ids room') = 19"
    using r nd sz by blast
  have p2: "\<exists>room'. rooms (final (discardCards ?s ''alice'' ''room-1'')) ''room-1'' = Some room' \<and>
             card_ids room' = card_ids ?r"
    using r3 e3' by blast
  have p0: "size (card_ids ?r) = 25"
    by (simp only: size_card_ids duel_recycling_cards)
  have two: "length (players ?r) = 2" by simp
  note t_start = t[THEN conjunct2, THEN conjunct2, THEN conjunct2, THEN conjunct2,
      THEN conjunct2, THEN conjunct2, rule_format, OF two]
  from t_start obtain room4 where
    r4: "rooms (final (startGame ?s ''room-1'')) ''room-1'' = Some room4"
    and e4: "gameMode ?r = RECYCLING \<longrightarrow> no_duplicates room4 \<and> size (card_ids room4) = 52"
    by blast
  from e4 have e4': "no_duplicates room4 \<and> size (card_ids room4) = 52" by simp
  have p3: "\<exists>room'. rooms (final (startGame ?s ''room-1'')) ''room-1'' = Some room' \<and>
             no_duplicates room' \<and> size (card_ids room') = 52"
    using r4 e4' by blast
  from duel_recycling_cards(1) p0 p1 p2 p3 show ?thesis by (intro conjI)
qed

end
